theory Spec2Isabelle
  imports Complex_Main
begin

text \<open>
  The order engine of the flower-shop API: the self-service route
  \<^verbatim>\<open>POST /api/v1/shop/orders\<close> with its profile helper, \<^verbatim>\<open>GET /api/v1/shop/orders/:id\<close>
  (src/routes/shop.js) and the staff route \<^verbatim>\<open>POST /api/v1/orders\<close> (src/routes/orders.js),
  over the four tables of models/index.js. A handler is a function from the database
  and the request to the response and the database it leaves; what a handler throws is a
  value, and its transaction is a working copy that is kept or dropped.
\<close>

section \<open>JavaScript values of a request body\<close>

text \<open>
  The two fields of a cart entry arrive as JSON. The model covers the values
  \<^verbatim>\<open>undefined\<close> (field absent), \<^verbatim>\<open>null\<close>, booleans and numbers; a number is an exact
  rational (a finite double, its rounding left out). String-valued entry fields would
  need ECMAScript's string-to-number grammar and are not part of the model.
\<close>

datatype jsval = JUndefined | JNull | JBool bool | JNum rat

fun truthy :: "jsval \<Rightarrow> bool" where
  "truthy JUndefined = False"
| "truthy JNull = False"
| "truthy (JBool b) = b"
| "truthy (JNum r) = (r \<noteq> 0)"

text \<open>\<^verbatim>\<open>Number(v)\<close>; the result \<open>None\<close> is NaN.\<close>

fun Number :: "jsval \<Rightarrow> rat option" where
  "Number JUndefined = None"
| "Number JNull = Some 0"
| "Number (JBool b) = Some (if b then 1 else 0)"
| "Number (JNum r) = Some r"

text \<open>\<^verbatim>\<open>v || 0\<close>\<close>

definition or0 :: "jsval \<Rightarrow> jsval" where
  "or0 v = (if truthy v then v else JNum 0)"

text \<open>Optional strings: \<open>None\<close> is an absent (or null) field.\<close>

definition truthy_str :: "string option \<Rightarrow> bool" where
  "truthy_str s = (case s of None \<Rightarrow> False | Some t \<Rightarrow> t \<noteq> [])"

text \<open>\<^verbatim>\<open>a || b\<close> for an optional string \<open>a\<close> and a string \<open>b\<close>\<close>

definition str_or :: "string option \<Rightarrow> string \<Rightarrow> string" where
  "str_or a b = (case a of None \<Rightarrow> b | Some t \<Rightarrow> if t \<noteq> [] then t else b)"

text \<open>\<^verbatim>\<open>a || null\<close>\<close>

definition or_null :: "string option \<Rightarrow> string option" where
  "or_null a = (if truthy_str a then a else None)"

section \<open>The cart\<close>

text \<open>
  An element of \<^verbatim>\<open>items\<close> is an entry object or an array of entries, which
  \<^verbatim>\<open>items.flat()\<close> splices in (one level). An element without the two fields (null, a
  primitive, a deeper array) reads as the entry whose fields are both \<open>JUndefined\<close>.
\<close>

record entry =
  flowerId :: jsval
  quantity :: jsval

datatype item = Obj entry | Arr "entry list"

fun flat1 :: "item \<Rightarrow> entry list" where
  "flat1 (Obj e) = [e]"
| "flat1 (Arr es) = es"

definition flat :: "item list \<Rightarrow> entry list" where
  "flat xs = concat (map flat1 xs)"

text \<open>
  A JavaScript \<^verbatim>\<open>Map\<close> from numbers to numbers: an association list in insertion order.
  \<^verbatim>\<open>set\<close> on a key that is present keeps its position.
\<close>

type_synonym jsmap = "(rat \<times> rat) list"

fun map_set :: "jsmap \<Rightarrow> rat \<Rightarrow> rat \<Rightarrow> jsmap" where
  "map_set [] k v = [(k, v)]"
| "map_set ((k', v') # m) k v = (if k' = k then (k, v) # m else (k', v') # map_set m k v)"

text \<open>\<^verbatim>\<open>merged.get(fid) || 0\<close>\<close>

definition map_get_or0 :: "jsmap \<Rightarrow> rat \<Rightarrow> rat" where
  "map_get_or0 m k = (case map_of m k of None \<Rightarrow> 0 | Some v \<Rightarrow> v)"

text \<open>
  The normalising loop of \<^verbatim>\<open>POST /shop/orders\<close> (shop.js, lines 112-122). \<open>None\<close> is the
  early exit with status 400. The branch where the quantity converts to NaN cannot be
  reached, since \<^verbatim>\<open>raw?.quantity || 0\<close> is never \<^verbatim>\<open>undefined\<close> (lemma \<open>Number_or0\<close>).
\<close>

fun merge_items :: "jsmap \<Rightarrow> entry list \<Rightarrow> jsmap option" where
  "merge_items merged [] = Some merged"
| "merge_items merged (raw # rest) =
     (case Number (flowerId raw) of
        None \<Rightarrow> None
      | Some fid \<Rightarrow>
         (case Number (or0 (quantity raw)) of
            None \<Rightarrow> None
          | Some qty \<Rightarrow>
             if fid = 0 \<or> qty < 1 then None
             else merge_items (map_set merged fid (map_get_or0 merged fid + qty)) rest))"

text \<open>
  The quantity an entry asks for, \<^verbatim>\<open>Number(raw?.quantity || 0)\<close>, and the entries the
  normalising loop rejects: \<^verbatim>\<open>!fid || qty < 1\<close>.
\<close>

definition entry_qty :: "entry \<Rightarrow> rat" where
  "entry_qty e = (case Number (or0 (quantity e)) of None \<Rightarrow> 0 | Some q \<Rightarrow> q)"

definition rejected :: "entry \<Rightarrow> bool" where
  "rejected e =
     (Number (flowerId e) = None \<or> Number (flowerId e) = Some 0 \<or> entry_qty e < 1)"

section \<open>The database\<close>

record Flower =
  f_id :: int
  f_name :: string
  f_price :: rat
  f_stock :: rat
  f_isActive :: bool

record Customer =
  c_id :: int
  c_name :: string
  c_email :: string
  c_isActive :: bool

datatype order_status = pending | paid | shipped | delivered | cancelled

text \<open>The object the self-service route serialises into the order's \<^verbatim>\<open>notes\<close> column.\<close>

record extra =
  x_fulfilment :: string
  x_deliveryAddress :: "string option"
  x_deliveryDate :: "string option"
  x_contactPhone :: "string option"
  x_giftMessage :: "string option"
  x_clientNotes :: "string option"

datatype order_notes = ExtraJson extra | PlainNotes "string option"

record Order =
  o_id :: int
  o_customerId :: int
  o_notes :: order_notes
  o_status :: order_status
  o_total :: rat

record OrderItem =
  oi_orderId :: int
  oi_flowerId :: rat
  oi_quantity :: rat
  oi_price :: rat

record db =
  flowers :: "Flower list"
  customers :: "Customer list"
  orders :: "Order list"
  order_items :: "OrderItem list"

text \<open>An auto-increment key: larger than every key in the table.\<close>

definition next_id :: "int list \<Rightarrow> int" where
  "next_id ids = foldr max ids 0 + 1"

text \<open>
  A transaction works on a copy \<open>w\<close> of the state \<open>d\<close> it started from: rolling back
  keeps \<open>d\<close>, committing keeps \<open>w\<close>.
\<close>

definition rollback :: "db \<Rightarrow> db \<Rightarrow> db" where
  "rollback d w = d"

definition commit :: "db \<Rightarrow> db \<Rightarrow> db" where
  "commit d w = w"

text \<open>
  \<^verbatim>\<open>Flower.findByPk\<close>: the model's default scope (models/index.js) keeps active rows only.
\<close>

definition Flower_findByPk :: "db \<Rightarrow> rat \<Rightarrow> Flower option" where
  "Flower_findByPk w k = find (\<lambda>f. of_int (f_id f) = k \<and> f_isActive f) (flowers w)"

text \<open>\<^verbatim>\<open>flower.update({ stock })\<close>\<close>

definition Flower_update_stock :: "db \<Rightarrow> int \<Rightarrow> rat \<Rightarrow> db" where
  "Flower_update_stock w i s =
     w\<lparr>flowers := map (\<lambda>f. if f_id f = i then f\<lparr>f_stock := s\<rparr> else f) (flowers w)\<rparr>"

text \<open>\<^verbatim>\<open>Customer.unscoped().findOrCreate({ where: { email }, defaults })\<close>\<close>

definition Customer_findOrCreate :: "db \<Rightarrow> string \<Rightarrow> string \<Rightarrow> (Customer \<times> bool) \<times> db" where
  "Customer_findOrCreate w email dname =
     (case find (\<lambda>c. c_email c = email) (customers w) of
        Some c \<Rightarrow> ((c, False), w)
      | None \<Rightarrow>
          (let c = \<lparr>c_id = next_id (map c_id (customers w)), c_name = dname,
                    c_email = email, c_isActive = True\<rparr>
           in ((c, True), w\<lparr>customers := customers w @ [c]\<rparr>)))"

text \<open>\<^verbatim>\<open>c.update(...)\<close>: the row with the instance's key takes the instance's new values.\<close>

definition Customer_save :: "db \<Rightarrow> Customer \<Rightarrow> db" where
  "Customer_save w c =
     w\<lparr>customers := map (\<lambda>x. if c_id x = c_id c then c else x) (customers w)\<rparr>"

definition Order_create :: "db \<Rightarrow> int \<Rightarrow> order_notes \<Rightarrow> Order \<times> db" where
  "Order_create w cid n =
     (let ord = \<lparr>o_id = next_id (map o_id (orders w)), o_customerId = cid, o_notes = n,
                  o_status = pending, o_total = 0\<rparr>
      in (ord, w\<lparr>orders := orders w @ [ord]\<rparr>))"

text \<open>\<^verbatim>\<open>order.update({ total })\<close>\<close>

definition Order_update_total :: "db \<Rightarrow> int \<Rightarrow> rat \<Rightarrow> db" where
  "Order_update_total w i t =
     w\<lparr>orders := map (\<lambda>x. if o_id x = i then x\<lparr>o_total := t\<rparr> else x) (orders w)\<rparr>"

section \<open>Errors and responses\<close>

text \<open>
  What the handlers catch: an \<^verbatim>\<open>Error\<close> with an optional \<^verbatim>\<open>status\<close> and a message,
  Sequelize's unique-constraint error (the composite key of \<^verbatim>\<open>order_items\<close>), or the
  error Sequelize throws for a \<^verbatim>\<open>where\<close> value that is \<^verbatim>\<open>undefined\<close>.
\<close>

datatype exn = Error "nat option" string | SequelizeUniqueConstraintError | WhereUndefined string

text \<open>A \<^verbatim>\<open>msg\<close>: a literal, or a template literal with the value it interpolates.\<close>

datatype msg =
    Lit string
  | Flower_unavailable rat
  | Flower_ID_not_found rat
  | Insufficient_stock_for string

text \<open>
  The response bodies: \<^verbatim>\<open>{ msg }\<close>, \<^verbatim>\<open>{ msg, error }\<close>, \<^verbatim>\<open>{ msg: 'Validation error', errors }\<close> (the
  messages of the caught error) and the order read back with its lines.
\<close>

datatype body =
    BMsg msg
  | BMsgError string string
  | BValidation exn
  | BOrder "(Order \<times> OrderItem list) option"

record response =
  status :: nat
  body :: body

definition bad_request :: "msg \<Rightarrow> response" where
  "bad_request m = \<lparr>status = 400, body = BMsg m\<rparr>"

definition not_found :: "msg \<Rightarrow> response" where
  "not_found m = \<lparr>status = 404, body = BMsg m\<rparr>"

text \<open>The principal that the authentication middleware decodes from the token.\<close>

record principal =
  u_id :: int
  u_email :: "string option"
  u_name :: "string option"
  u_role :: string

section \<open>The self-service route (src/routes/shop.js)\<close>

text \<open>\<^verbatim>\<open>email.split('@')[0]\<close>\<close>

definition local_part :: "string \<Rightarrow> string" where
  "local_part email = takeWhile (\<lambda>c. c \<noteq> CHR ''@'') email"

text \<open>
  \<^verbatim>\<open>getOrCreateCustomerProfile(user, t)\<close>: the profile found for the principal's email among
  all rows (active or not) or created, an inactive one reactivated.
\<close>

definition getOrCreateCustomerProfile :: "principal \<Rightarrow> db \<Rightarrow> exn + Customer \<times> db" where
  "getOrCreateCustomerProfile user w =
     (if \<not> truthy_str (u_email user)
      then Inl (Error (Some 400) ''Authenticated user is missing an email'')
      else
        (let email = the (u_email user);
             ((c, created), w1) =
                Customer_findOrCreate w email (str_or (u_name user) (local_part email))
         in if \<not> created \<and> \<not> c_isActive c
            then
              (let c' = c\<lparr>c_isActive := True,
                           c_name := (if c_name c \<noteq> [] then c_name c
                                      else str_or (u_name user) (local_part email))\<rparr>
               in Inr (c', Customer_save w1 c'))
            else Inr (c, w1)))"

text \<open>
  \<^verbatim>\<open>OrderItem.create\<close>: the composite key (orderId, flowerId) is unique; a second row with
  the same key makes Sequelize throw.
\<close>

definition OrderItem_create :: "db \<Rightarrow> OrderItem \<Rightarrow> exn + db" where
  "OrderItem_create w row =
     (if list_ex (\<lambda>i. oi_orderId i = oi_orderId row \<and> oi_flowerId i = oi_flowerId row)
           (order_items w)
      then Inl SequelizeUniqueConstraintError
      else Inr (w\<lparr>order_items := order_items w @ [row]\<rparr>))"

text \<open>How one turn of a loop ends: it goes on, the handler responds, or something throws.\<close>

datatype 'a step = Continue 'a | Respond response | Raise exn

text \<open>
  One turn of the reservation loop (shop.js, lines 127-142), after \<^verbatim>\<open>Flower.findByPk\<close> has
  returned \<open>flower\<close>: the checks read that object, and the new stock is computed from it.
\<close>

definition reserve :: "int \<Rightarrow> rat \<Rightarrow> rat \<Rightarrow> Flower option \<Rightarrow> rat \<times> db \<Rightarrow> (rat \<times> db) step" where
  "reserve oid fid q found tw =
     (case found of
        None \<Rightarrow> Respond (bad_request (Flower_unavailable fid))
      | Some flower \<Rightarrow>
          if \<not> f_isActive flower then Respond (bad_request (Flower_unavailable fid))
          else if f_stock flower < q
          then Respond (bad_request (Insufficient_stock_for (f_name flower)))
          else
            (let price = f_price flower;
                 tot = fst tw + price * q
             in case OrderItem_create (snd tw)
                       \<lparr>oi_orderId = oid, oi_flowerId = fid, oi_quantity = q, oi_price = price\<rparr> of
                  Inl e \<Rightarrow> Raise e
                | Inr w1 \<Rightarrow>
                    Continue (tot, Flower_update_stock w1 (f_id flower) (f_stock flower - q))))"

fun reserve_loop :: "int \<Rightarrow> jsmap \<Rightarrow> rat \<times> db \<Rightarrow> (rat \<times> db) step" where
  "reserve_loop oid [] tw = Continue tw"
| "reserve_loop oid ((fid, q) # rest) tw =
     (case reserve oid fid q (Flower_findByPk (snd tw) fid) tw of
        Continue tw' \<Rightarrow> reserve_loop oid rest tw'
      | Respond r \<Rightarrow> Respond r
      | Raise e \<Rightarrow> Raise e)"

text \<open>\<^verbatim>\<open>Order.findByPk(id, { include: ... })\<close>: the order with its lines.\<close>

definition Order_findByPk :: "db \<Rightarrow> rat \<Rightarrow> (Order \<times> OrderItem list) option" where
  "Order_findByPk w k =
     (case find (\<lambda>x. of_int (o_id x) = k) (orders w) of
        None \<Rightarrow> None
      | Some x \<Rightarrow> Some (x, filter (\<lambda>i. oi_orderId i = o_id x) (order_items w)))"

text \<open>The \<^verbatim>\<open>catch\<close> block of the self-service route (lines 156-165).\<close>

definition isSeqValidation :: "exn \<Rightarrow> bool" where
  "isSeqValidation e = (e = SequelizeUniqueConstraintError)"

fun err_status :: "exn \<Rightarrow> nat option" where
  "err_status (Error st m) = st"
| "err_status SequelizeUniqueConstraintError = None"
| "err_status (WhereUndefined k) = None"

fun err_message :: "exn \<Rightarrow> string" where
  "err_message (Error st m) = m"
| "err_message SequelizeUniqueConstraintError = ''Validation error''"
| "err_message (WhereUndefined k) =
     ''WHERE parameter '' @ [CHR 0x22] @ k @ [CHR 0x22] @ '' has invalid '' @
     [CHR 0x22] @ ''undefined'' @ [CHR 0x22] @ '' value''"

definition shop_catch :: "exn \<Rightarrow> response" where
  "shop_catch e =
     (if isSeqValidation e then \<lparr>status = 400, body = BValidation e\<rparr>
      else
        (let st = (case err_status e of None \<Rightarrow> 500 | Some n \<Rightarrow> if n = 0 then 500 else n)
         in \<lparr>status = st,
             body = BMsgError (if st = 500 then ''Server error'' else err_message e)
                      (err_message e)\<rparr>))"

text \<open>The body of a self-service order request.\<close>

record order_req =
  r_items :: "item list option"
  r_fulfilment :: "string option"
  r_deliveryAddress :: "string option"
  r_deliveryDate :: "string option"
  r_contactPhone :: "string option"
  r_giftMessage :: "string option"
  r_notes :: "string option"

text \<open>\<^verbatim>\<open>fulfilment === 'delivery' ? 'delivery' : 'pickup'\<close> (line 86)\<close>

definition fulfil :: "string option \<Rightarrow> string" where
  "fulfil fulfilment = (if fulfilment = Some ''delivery'' then ''delivery'' else ''pickup'')"

text \<open>The object \<^verbatim>\<open>extra\<close> (lines 94-101).\<close>

definition extra_of :: "order_req \<Rightarrow> extra" where
  "extra_of req =
     \<lparr>x_fulfilment = fulfil (r_fulfilment req),
      x_deliveryAddress = or_null (r_deliveryAddress req),
      x_deliveryDate = or_null (r_deliveryDate req),
      x_contactPhone = r_contactPhone req,
      x_giftMessage = or_null (r_giftMessage req),
      x_clientNotes = or_null (r_notes req)\<rparr>"

text \<open>
  \<^verbatim>\<open>POST /api/v1/shop/orders\<close> (lines 67-167), for a principal that passed the guards.
  \<open>r_items = None\<close> is a body whose \<^verbatim>\<open>items\<close> is not an array. The result is the response
  and the database the call leaves.
\<close>

definition shop_post_orders :: "db \<Rightarrow> principal \<Rightarrow> order_req \<Rightarrow> response \<times> db" where
  "shop_post_orders d user req =
     (case r_items req of
        None \<Rightarrow> (bad_request (Lit ''items are required''), d)
      | Some items \<Rightarrow>
          if items = [] then (bad_request (Lit ''items are required''), d)
          else if \<not> truthy_str (r_contactPhone req)
          then (bad_request (Lit ''contactPhone is required''), d)
          else
            (case getOrCreateCustomerProfile user d of
               Inl e \<Rightarrow> (shop_catch e, rollback d d)
             | Inr (customer, w1) \<Rightarrow>
                 (let (ord, w2) = Order_create w1 (c_id customer) (ExtraJson (extra_of req))
                  in case merge_items [] (flat items) of
                       None \<Rightarrow>
                         (bad_request (Lit ''Each item needs flowerId and quantity >= 1''),
                          rollback d w2)
                     | Some merged \<Rightarrow>
                         (case reserve_loop (o_id ord) merged (0, w2) of
                            Respond r \<Rightarrow> (r, rollback d w2)
                          | Raise e \<Rightarrow> (shop_catch e, rollback d w2)
                          | Continue (tot, w3) \<Rightarrow>
                              (let w4 = Order_update_total w3 (o_id ord) tot;
                                   d' = commit d w4
                               in (\<lparr>status = 201,
                                    body = BOrder (Order_findByPk d' (of_int (o_id ord)))\<rparr>,
                                   d'))))))"

text \<open>
  \<^verbatim>\<open>Customer.unscoped().findOne({ where: { email } })\<close>: Sequelize refuses an
  \<^verbatim>\<open>undefined\<close> value in a \<^verbatim>\<open>where\<close> clause.
\<close>

definition Customer_findOne_email :: "db \<Rightarrow> string option \<Rightarrow> exn + Customer option" where
  "Customer_findOne_email w e =
     (case e of
        None \<Rightarrow> Inl (WhereUndefined ''email'')
      | Some email \<Rightarrow> Inr (find (\<lambda>c. c_email c = email) (customers w)))"

text \<open>
  \<^verbatim>\<open>GET /api/v1/shop/orders/:id\<close> (lines 196-219); \<open>k\<close> is the number the path segment
  converts to.
\<close>

definition shop_get_order :: "db \<Rightarrow> principal \<Rightarrow> rat \<Rightarrow> response" where
  "shop_get_order d user k =
     (case Customer_findOne_email d (u_email user) of
        Inl e \<Rightarrow> \<lparr>status = 500, body = BMsgError ''Server error'' (err_message e)\<rparr>
      | Inr None \<Rightarrow> not_found (Lit ''Order not found'')
      | Inr (Some customer) \<Rightarrow>
          (case Order_findByPk d k of
             None \<Rightarrow> not_found (Lit ''Order not found'')
           | Some full \<Rightarrow>
               if o_customerId (fst full) \<noteq> c_id customer
               then not_found (Lit ''Order not found'')
               else \<lparr>status = 200, body = BOrder (Some full)\<rparr>))"

section \<open>The staff route (src/routes/orders.js)\<close>

text \<open>
  The body of \<^verbatim>\<open>POST /api/v1/orders\<close>, for entries whose two fields are numbers: the
  route reads them as they come, without \<^verbatim>\<open>Number(...)\<close>.
\<close>

record staff_req =
  s_customerId :: "int option"
  s_items :: "(rat \<times> rat) list option"
  s_notes :: "string option"

text \<open>\<^verbatim>\<open>Customer.findByPk\<close>, under the default scope (active rows).\<close>

definition Customer_findByPk :: "db \<Rightarrow> int \<Rightarrow> Customer option" where
  "Customer_findByPk w i = find (\<lambda>c. c_id c = i \<and> c_isActive c) (customers w)"

text \<open>One turn of the staff route's loop (orders.js, lines 95-118).\<close>

definition staff_reserve ::
    "int \<Rightarrow> rat \<Rightarrow> rat \<Rightarrow> Flower option \<Rightarrow> rat \<times> db \<Rightarrow> (rat \<times> db) step" where
  "staff_reserve oid fid q found tw =
     (case found of
        None \<Rightarrow> Respond (bad_request (Flower_ID_not_found fid))
      | Some flower \<Rightarrow>
          if \<not> f_isActive flower then Respond (bad_request (Flower_ID_not_found fid))
          else if f_stock flower < q
          then Respond (bad_request (Insufficient_stock_for (f_name flower)))
          else
            (let price = f_price flower;
                 tot = fst tw + price * q
             in case OrderItem_create (snd tw)
                       \<lparr>oi_orderId = oid, oi_flowerId = fid, oi_quantity = q, oi_price = price\<rparr> of
                  Inl e \<Rightarrow> Raise e
                | Inr w1 \<Rightarrow>
                    Continue (tot, Flower_update_stock w1 (f_id flower) (f_stock flower - q))))"

fun staff_loop :: "int \<Rightarrow> (rat \<times> rat) list \<Rightarrow> rat \<times> db \<Rightarrow> (rat \<times> db) step" where
  "staff_loop oid [] tw = Continue tw"
| "staff_loop oid ((fid, q) # rest) tw =
     (case staff_reserve oid fid q (Flower_findByPk (snd tw) fid) tw of
        Continue tw' \<Rightarrow> staff_loop oid rest tw'
      | Respond r \<Rightarrow> Respond r
      | Raise e \<Rightarrow> Raise e)"

text \<open>\<^verbatim>\<open>POST /api/v1/orders\<close> (orders.js, lines 72-138).\<close>

definition orders_post :: "db \<Rightarrow> staff_req \<Rightarrow> response \<times> db" where
  "orders_post d req =
     (case (s_customerId req, s_items req) of
        (Some customerId, Some items) \<Rightarrow>
          if customerId = 0 \<or> items = []
          then (bad_request (Lit ''customerId and items are required''), d)
          else
            (case Customer_findByPk d customerId of
               None \<Rightarrow> (bad_request (Lit ''Invalid customer''), rollback d d)
             | Some customer \<Rightarrow>
                 if \<not> c_isActive customer
                 then (bad_request (Lit ''Invalid customer''), rollback d d)
                 else
                   (let (ord, w2) = Order_create d customerId (PlainNotes (s_notes req))
                    in case staff_loop (o_id ord) items (0, w2) of
                         Respond r \<Rightarrow> (r, rollback d w2)
                       | Raise e \<Rightarrow>
                           (\<lparr>status = 500, body = BMsgError ''Server error'' (err_message e)\<rparr>,
                            rollback d w2)
                       | Continue (tot, w3) \<Rightarrow>
                           (let w4 = Order_update_total w3 (o_id ord) tot;
                                d' = commit d w4
                            in (\<lparr>status = 201,
                                 body = BOrder (Order_findByPk d' (of_int (o_id ord)))\<rparr>,
                                d'))))
      | _ \<Rightarrow> (bad_request (Lit ''customerId and items are required''), d))"

section \<open>Example data\<close>

definition rose :: Flower where
  "rose = \<lparr>f_id = 7, f_name = ''Rose'', f_price = 99 / 10, f_stock = 10, f_isActive = True\<rparr>"

definition tulip :: Flower where
  "tulip = \<lparr>f_id = 8, f_name = ''Tulip'', f_price = 5 / 2, f_stock = 3, f_isActive = True\<rparr>"

definition shop0 :: db where
  "shop0 = \<lparr>flowers = [rose, tulip], customers = [], orders = [], order_items = []\<rparr>"

definition ann :: principal where
  "ann = \<lparr>u_id = 1, u_email = Some ''ann@example.com'', u_name = None, u_role = ''customer''\<rparr>"

definition cart :: "item list \<Rightarrow> order_req" where
  "cart its =
     \<lparr>r_items = Some its, r_fulfilment = None, r_deliveryAddress = None,
      r_deliveryDate = None, r_contactPhone = Some ''0400 000 000'', r_giftMessage = None,
      r_notes = None\<rparr>"

definition line :: "rat \<Rightarrow> rat \<Rightarrow> item" where
  "line k n = Obj \<lparr>flowerId = JNum k, quantity = JNum n\<rparr>"

definition posy :: Flower where
  "posy = \<lparr>f_id = 9, f_name = ''Rose'', f_price = 4, f_stock = 3, f_isActive = True\<rparr>"

definition shop1 :: db where
  "shop1 = \<lparr>flowers = [posy], customers = [], orders = [], order_items = []\<rparr>"

definition ann_profile :: "bool \<Rightarrow> Customer" where
  "ann_profile a = \<lparr>c_id = 1, c_name = ''Ann'', c_email = ''ann@example.com'', c_isActive = a\<rparr>"

definition bob_profile :: Customer where
  "bob_profile = \<lparr>c_id = 2, c_name = ''Bob'', c_email = ''bob@example.com'', c_isActive = True\<rparr>"

definition bobs_order :: Order where
  "bobs_order = \<lparr>o_id = 1, o_customerId = 2, o_notes = PlainNotes None, o_status = pending,
                 o_total = 5\<rparr>"

text \<open>Two profiles and one order, Bob's.\<close>

definition shop2 :: db where
  "shop2 = \<lparr>flowers = [rose, tulip], customers = [ann_profile True, bob_profile],
            orders = [bobs_order],
            order_items = [\<lparr>oi_orderId = 1, oi_flowerId = 8, oi_quantity = 2, oi_price = 5 / 2\<rparr>]\<rparr>"

text \<open>Ann's profile, soft-deleted.\<close>

definition shop3 :: db where
  "shop3 = \<lparr>flowers = [rose, tulip], customers = [ann_profile False], orders = [],
            order_items = []\<rparr>"

definition staff_cart :: "(rat \<times> rat) list \<Rightarrow> staff_req" where
  "staff_cart its = \<lparr>s_customerId = Some 1, s_items = Some its, s_notes = None\<rparr>"

section \<open>Predicates of the statements\<close>

text \<open>
  The foreign key of \<^verbatim>\<open>order_items\<close>: every line belongs to an order of the table.
\<close>

definition fk_order_items :: "db \<Rightarrow> bool" where
  "fk_order_items d =
     list_all (\<lambda>i. list_ex (\<lambda>x. o_id x = oi_orderId i) (orders d)) (order_items d)"

text \<open>A merged item whose flower is on sale with enough stock.\<close>

definition reservable :: "db \<Rightarrow> rat \<times> rat \<Rightarrow> bool" where
  "reservable w kn =
     (case Flower_findByPk w (fst kn) of None \<Rightarrow> False | Some g \<Rightarrow> snd kn \<le> f_stock g)"

text \<open>
  The entries and requests that validation turns down, field by field: a flowerId that is
  absent, null, false or 0; a quantity that is absent, null, false or a number below 1.
\<close>

definition invalid_entry :: "entry \<Rightarrow> bool" where
  "invalid_entry e =
     ((case flowerId e of JNum k \<Rightarrow> k = 0 | JBool b \<Rightarrow> \<not> b | _ \<Rightarrow> True) \<or>
      (case quantity e of JNum n \<Rightarrow> n < 1 | JBool b \<Rightarrow> \<not> b | _ \<Rightarrow> True))"

definition invalid_request :: "order_req \<Rightarrow> bool" where
  "invalid_request req =
     (case r_items req of
        None \<Rightarrow> True
      | Some its \<Rightarrow>
          its = [] \<or> \<not> truthy_str (r_contactPhone req) \<or> list_ex invalid_entry (flat its))"

section \<open>Evaluation\<close>

lemmas eval_defs =
  shop_post_orders_def getOrCreateCustomerProfile_def Customer_findOrCreate_def Customer_save_def
  Order_create_def Order_update_total_def Order_findByPk_def OrderItem_create_def
  Flower_findByPk_def Flower_update_stock_def reserve_def merge_items.simps reserve_loop.simps
  flat_def or0_def map_get_or0_def next_id_def truthy_str_def str_or_def or_null_def local_part_def
  fulfil_def extra_of_def bad_request_def not_found_def shop_catch_def isSeqValidation_def
  rollback_def commit_def Let_def

lemmas staff_defs = orders_post_def Customer_findByPk_def staff_reserve_def staff_loop.simps
  staff_cart_def

lemmas example_defs = shop0_def rose_def tulip_def ann_def cart_def line_def posy_def shop1_def
  ann_profile_def bob_profile_def bobs_order_def shop2_def shop3_def

section \<open>Lists, values and keys\<close>

lemma filter_False: "(\<And>x. x \<in> set xs \<Longrightarrow> \<not> P x) \<Longrightarrow> filter P xs = []"
  by (induction xs) auto

lemma filter_True': "(\<And>x. x \<in> set xs \<Longrightarrow> P x) \<Longrightarrow> filter P xs = xs"
  by (induction xs) auto

lemma find_append_fresh:
  "(\<And>x. x \<in> set xs \<Longrightarrow> \<not> P x) \<Longrightarrow> find P (xs @ ys) = find P ys"
  by (induction xs) auto

lemma map_id_on: "(\<And>x. x \<in> set xs \<Longrightarrow> g x = x) \<Longrightarrow> map g xs = xs"
  by (induction xs) auto

lemma find_None_filter: "find P xs = None \<Longrightarrow> filter P xs = []"
  by (induction xs) (auto split: if_splits)

lemma find_Some_mem: "find P xs = Some x \<Longrightarrow> x \<in> set xs \<and> P x"
  by (induction xs) (auto split: if_splits)

lemma filter_unique_key:
  "distinct (map key xs) \<Longrightarrow> x \<in> set xs \<Longrightarrow> filter (\<lambda>y. key y = key x) xs = [x]"
proof (induction xs)
  case Nil
  then show ?case by simp
next
  case (Cons a xs)
  show ?case
  proof (cases "a = x")
    case True
    have "\<forall>y\<in>set xs. key y \<noteq> key x" using Cons.prems True by (force simp: image_iff)
    then have "filter (\<lambda>y. key y = key x) xs = []" by (simp add: filter_False)
    with True show ?thesis by simp
  next
    case False
    with Cons.prems have "x \<in> set xs" "key a \<noteq> key x" by force+
    with Cons show ?thesis by simp
  qed
qed

lemma find_map_inv:
  "(\<And>x. P (g x) = P x) \<Longrightarrow> find P (map g xs) = map_option g (find P xs)"
  by (induction xs) auto

lemma Number_or0: "Number (or0 v) \<noteq> None"
  by (cases v) (auto simp: or0_def)

lemma next_id_gt: "i \<in> set ids \<Longrightarrow> i < next_id ids"
  by (induction ids) (auto simp: next_id_def)

lemma map_fst_map_set:
  "map fst (map_set m k v) = (if k \<in> fst ` set m then map fst m else map fst m @ [k])"
  by (induction m) force+

lemma distinct_map_set: "distinct (map fst m) \<Longrightarrow> distinct (map fst (map_set m k v))"
  by (simp add: map_fst_map_set)

lemma map_of_map_set: "map_of (map_set m k v) = (map_of m)(k \<mapsto> v)"
  by (induction m) (auto)

lemma map_get_or0_map_set:
  "map_get_or0 (map_set m k v) k' = (if k' = k then v else map_get_or0 m k')"
  by (simp add: map_get_or0_def map_of_map_set)

lemma three_halves_not_int: "(3 / 2 :: rat) \<notin> \<int>"
proof
  assume "(3 / 2 :: rat) \<in> \<int>"
  then obtain z :: int where "(3 / 2 :: rat) = of_int z" by (auto elim: Ints_cases)
  then have "(of_int 3 :: rat) = of_int (2 * z)" by simp
  then have "3 = 2 * z" by (simp only: of_int_eq_iff)
  then show False by presburger
qed

section \<open>The merged cart\<close>

lemma merge_items_None: "merge_items acc es = None \<longleftrightarrow> list_ex rejected es"
  using Number_or0
  by (induction es arbitrary: acc) (auto simp: rejected_def entry_qty_def split: option.splits)

lemma merge_items_distinct:
  "merge_items acc es = Some m \<Longrightarrow> distinct (map fst acc) \<Longrightarrow> distinct (map fst m)"
  by (induction es arbitrary: acc) (auto simp: distinct_map_set split: option.splits if_splits)

lemma merge_items_keys:
  "merge_items acc es = Some m \<Longrightarrow>
     fst ` set m = fst ` set acc \<union> {k. \<exists>e\<in>set es. Number (flowerId e) = Some k}"
proof (induction es arbitrary: acc)
  case Nil then show ?case by simp
next
  case (Cons e es)
  then obtain fid qty where n: "Number (flowerId e) = Some fid" "Number (or0 (quantity e)) = Some qty"
     and r: "merge_items (map_set acc fid (map_get_or0 acc fid + qty)) es = Some m"
    by (auto split: option.splits if_splits)
  have "fst ` set (map_set acc fid (map_get_or0 acc fid + qty)) = insert fid (fst ` set acc)"
    using map_fst_map_set[of acc fid "map_get_or0 acc fid + qty"]
    by (metis (no_types, lifting) insert_absorb list.set_map set_append list.simps(15) Un_insert_right sup_bot.right_neutral empty_set)
  with Cons.IH[OF r] n show ?case by auto
qed

lemma merge_items_sum:
  "merge_items acc es = Some m \<Longrightarrow>
     map_get_or0 m k = map_get_or0 acc k +
        sum_list (map entry_qty (filter (\<lambda>e. Number (flowerId e) = Some k) es))"
proof (induction es arbitrary: acc)
  case Nil then show ?case by simp
next
  case (Cons e es)
  then obtain fid qty where n: "Number (flowerId e) = Some fid" "Number (or0 (quantity e)) = Some qty"
     and r: "merge_items (map_set acc fid (map_get_or0 acc fid + qty)) es = Some m"
    by (auto split: option.splits if_splits)
  show ?case
    using Cons.IH[OF r] n by (auto simp: map_get_or0_map_set entry_qty_def)
qed

lemma map_of_distinct_mem:
  "distinct (map fst m) \<Longrightarrow> (k, v) \<in> set m \<Longrightarrow> map_get_or0 m k = v"
  by (simp add: map_get_or0_def)

lemma rejected_iff_invalid_entry: "rejected e = invalid_entry e"
  by (cases "flowerId e"; cases "quantity e")
     (auto simp: rejected_def invalid_entry_def entry_qty_def or0_def)

lemma invalid_entry_numbers:
  "invalid_entry \<lparr>flowerId = JNum k, quantity = JNum n\<rparr> \<longleftrightarrow> k = 0 \<or> n < 1"
  by (simp add: invalid_entry_def)

section \<open>Flowers and the reservation loop\<close>

lemma Flower_findByPk_update:
  "Flower_findByPk (Flower_update_stock w i s) k =
     map_option (\<lambda>f. if f_id f = i then f\<lparr>f_stock := s\<rparr> else f) (Flower_findByPk w k)"
  unfolding Flower_findByPk_def Flower_update_stock_def
  by (simp add: find_map_inv)

lemma Flower_findByPk_order_items [simp]:
  "Flower_findByPk (w\<lparr>order_items := x\<rparr>) k = Flower_findByPk w k"
  by (simp add: Flower_findByPk_def)

lemma Flower_findByPk_SomeD:
  "Flower_findByPk w k = Some f \<Longrightarrow> of_int (f_id f) = k \<and> f_isActive f \<and> f \<in> set (flowers w)"
  unfolding Flower_findByPk_def by (auto simp: find_Some_iff)

text \<open>What one successful turn does.\<close>

lemma reserve_Continue:
  assumes "reserve oid fid q found (t, w) = Continue (t', w')"
  obtains f where "found = Some f" "f_isActive f" "q \<le> f_stock f"
    "t' = t + f_price f * q"
    "\<not> list_ex (\<lambda>i. oi_orderId i = oid \<and> oi_flowerId i = fid) (order_items w)"
    "w' = Flower_update_stock
            (w\<lparr>order_items := order_items w @
                [\<lparr>oi_orderId = oid, oi_flowerId = fid, oi_quantity = q, oi_price = f_price f\<rparr>]\<rparr>)
            (f_id f) (f_stock f - q)"
proof (cases found)
  case None
  with assms show ?thesis by (simp add: reserve_def)
next
  case (Some f)
  with assms have a: "f_isActive f" "q \<le> f_stock f"
    by (auto simp: reserve_def split: if_splits)
  with assms Some show ?thesis
    by (intro that[of f]) (auto simp: reserve_def OrderItem_create_def Let_def split: if_splits)
qed

lemma reserve_loop_Continue:
  assumes "reserve_loop oid m (t, w) = Continue (t', w')"
  shows "customers w' = customers w \<and> orders w' = orders w \<and>
         (\<exists>rows. order_items w' = order_items w @ rows
            \<and> map (\<lambda>i. (oi_flowerId i, oi_quantity i)) rows = m
            \<and> (\<forall>i\<in>set rows. oi_orderId i = oid)
            \<and> t' = t + sum_list (map (\<lambda>i. oi_price i * oi_quantity i) rows))"
  using assms
proof (induction m arbitrary: t w)
  case Nil
  then show ?case by simp
next
  case (Cons a m)
  obtain fid q where a: "a = (fid, q)" by (cases a)
  from Cons.prems a obtain t1 w1 where
    s: "reserve oid fid q (Flower_findByPk w fid) (t, w) = Continue (t1, w1)"
    and l: "reserve_loop oid m (t1, w1) = Continue (t', w')"
    by (auto split: step.splits)
  from s obtain f where
    f: "Flower_findByPk w fid = Some f" "f_isActive f" "q \<le> f_stock f"
       "t1 = t + f_price f * q"
       "\<not> list_ex (\<lambda>i. oi_orderId i = oid \<and> oi_flowerId i = fid) (order_items w)"
       "w1 = Flower_update_stock
               (w\<lparr>order_items := order_items w @
                   [\<lparr>oi_orderId = oid, oi_flowerId = fid, oi_quantity = q, oi_price = f_price f\<rparr>]\<rparr>)
               (f_id f) (f_stock f - q)"
    by (rule reserve_Continue)
  from Cons.IH[OF l] obtain rows where
    r: "customers w' = customers w1" "orders w' = orders w1"
       "order_items w' = order_items w1 @ rows"
       "map (\<lambda>i. (oi_flowerId i, oi_quantity i)) rows = m"
       "\<forall>i\<in>set rows. oi_orderId i = oid"
       "t' = t1 + sum_list (map (\<lambda>i. oi_price i * oi_quantity i) rows)" by blast
  let ?row = "\<lparr>oi_orderId = oid, oi_flowerId = fid, oi_quantity = q, oi_price = f_price f\<rparr>"
  have 1: "order_items w' = order_items w @ (?row # rows)"
    using r f by (simp add: Flower_update_stock_def)
  have 2: "map (\<lambda>i. (oi_flowerId i, oi_quantity i)) (?row # rows) = a # m"
    using r a by simp
  have 3: "\<forall>i\<in>set (?row # rows). oi_orderId i = oid" using r by simp
  have 4: "t' = t + sum_list (map (\<lambda>i. oi_price i * oi_quantity i) (?row # rows))"
    using r f by simp
  have 5: "customers w' = customers w" "orders w' = orders w"
    using r f by (simp_all add: Flower_update_stock_def)
  from 1 2 3 4 have "\<exists>rows. order_items w' = order_items w @ rows
            \<and> map (\<lambda>i. (oi_flowerId i, oi_quantity i)) rows = a # m
            \<and> (\<forall>i\<in>set rows. oi_orderId i = oid)
            \<and> t' = t + sum_list (map (\<lambda>i. oi_price i * oi_quantity i) rows)"
    by (intro exI[of _ "?row # rows"] conjI)
  with 5 show ?case by simp
qed

text \<open>Stock after a successful loop over distinct keys.\<close>

lemma reserve_loop_other:
  assumes "reserve_loop oid m (t, w) = Continue (t', w')" "k \<notin> fst ` set m"
  shows "Flower_findByPk w' k = Flower_findByPk w k"
  using assms
proof (induction m arbitrary: t w)
  case Nil
  then show ?case by simp
next
  case (Cons a m)
  obtain fid q where a: "a = (fid, q)" by (cases a)
  from Cons.prems a obtain t1 w1 where
    s: "reserve oid fid q (Flower_findByPk w fid) (t, w) = Continue (t1, w1)"
    and l: "reserve_loop oid m (t1, w1) = Continue (t', w')"
    by (auto split: step.splits)
  from s obtain f where
    f: "Flower_findByPk w fid = Some f" "f_isActive f" "q \<le> f_stock f"
       "t1 = t + f_price f * q"
       "\<not> list_ex (\<lambda>i. oi_orderId i = oid \<and> oi_flowerId i = fid) (order_items w)"
       "w1 = Flower_update_stock
               (w\<lparr>order_items := order_items w @
                   [\<lparr>oi_orderId = oid, oi_flowerId = fid, oi_quantity = q, oi_price = f_price f\<rparr>]\<rparr>)
               (f_id f) (f_stock f - q)"
    by (rule reserve_Continue)
  have "k \<noteq> fid" using Cons.prems a by auto
  have "Flower_findByPk w1 k = Flower_findByPk w k"
  proof (cases "Flower_findByPk w k")
    case None
    then show ?thesis using f by (simp add: Flower_findByPk_update)
  next
    case (Some g)
    with Flower_findByPk_SomeD[OF Some] Flower_findByPk_SomeD[OF f(1)] \<open>k \<noteq> fid\<close>
    have "f_id g \<noteq> f_id f" by auto
    then show ?thesis using f Some by (simp add: Flower_findByPk_update)
  qed
  moreover have "Flower_findByPk w' k = Flower_findByPk w1 k"
    using Cons.IH[OF l] Cons.prems(2) by simp
  ultimately show ?case by simp
qed

lemma reserve_loop_stock:
  assumes "reserve_loop oid m (t, w) = Continue (t', w')" "distinct (map fst m)" "(fid, q) \<in> set m"
  shows "\<exists>f. Flower_findByPk w fid = Some f \<and> q \<le> f_stock f
            \<and> Flower_findByPk w' fid = Some (f\<lparr>f_stock := f_stock f - q\<rparr>)"
  using assms
proof (induction m arbitrary: t w)
  case Nil
  then show ?case by simp
next
  case (Cons a m)
  obtain k n where a: "a = (k, n)" by (cases a)
  from Cons.prems a obtain t1 w1 where
    s: "reserve oid k n (Flower_findByPk w k) (t, w) = Continue (t1, w1)"
    and l: "reserve_loop oid m (t1, w1) = Continue (t', w')"
    by (auto split: step.splits)
  from s obtain g where
    g: "Flower_findByPk w k = Some g" "f_isActive g" "n \<le> f_stock g"
       "t1 = t + f_price g * n"
       "\<not> list_ex (\<lambda>i. oi_orderId i = oid \<and> oi_flowerId i = k) (order_items w)"
       "w1 = Flower_update_stock
               (w\<lparr>order_items := order_items w @
                   [\<lparr>oi_orderId = oid, oi_flowerId = k, oi_quantity = n, oi_price = f_price g\<rparr>]\<rparr>)
               (f_id g) (f_stock g - n)"
    by (rule reserve_Continue)
  show ?case
  proof (cases "(fid, q) = (k, n)")
    case True
    have "k \<notin> fst ` set m" using Cons.prems(2) a by auto
    from reserve_loop_other[OF l this]
    have "Flower_findByPk w' k = Flower_findByPk w1 k" .
    also have "\<dots> = Some (g\<lparr>f_stock := f_stock g - n\<rparr>)"
      using g by (simp add: Flower_findByPk_update)
    finally show ?thesis using True g by simp
  next
    case False
    then have m: "(fid, q) \<in> set m" using Cons.prems(3) a by auto
    then have "fid \<noteq> k" using Cons.prems(2) a by force
    from Cons.IH[OF l _ m] Cons.prems(2) obtain f where
      f: "Flower_findByPk w1 fid = Some f" "q \<le> f_stock f"
         "Flower_findByPk w' fid = Some (f\<lparr>f_stock := f_stock f - q\<rparr>)" by auto
    have "Flower_findByPk w1 fid = Flower_findByPk w fid"
    proof (cases "Flower_findByPk w fid")
      case None
      then show ?thesis using g by (simp add: Flower_findByPk_update)
    next
      case (Some h)
      with Flower_findByPk_SomeD[OF Some] Flower_findByPk_SomeD[OF g(1)] \<open>fid \<noteq> k\<close>
      have "f_id h \<noteq> f_id g" by auto
      then show ?thesis using g Some by (simp add: Flower_findByPk_update)
    qed
    with f show ?thesis by simp
  qed
qed

lemma Flower_findByPk_other:
  assumes "Flower_findByPk w fid = Some f" "k \<noteq> fid"
  shows "Flower_findByPk (Flower_update_stock w (f_id f) s) k = Flower_findByPk w k"
proof (cases "Flower_findByPk w k")
  case None
  then show ?thesis by (simp add: Flower_findByPk_update)
next
  case (Some g)
  with Flower_findByPk_SomeD[OF Some] Flower_findByPk_SomeD[OF assms(1)] assms(2)
  have "f_id g \<noteq> f_id f" by auto
  then show ?thesis using Some by (simp add: Flower_findByPk_update)
qed

lemma reserve_loop_ok:
  assumes "list_all (reservable w) xs" "distinct (map fst xs)"
    "\<forall>i\<in>set (order_items w). oi_orderId i = oid \<longrightarrow> oi_flowerId i \<notin> fst ` set xs"
  shows "\<exists>t' w'. reserve_loop oid xs (t, w) = Continue (t', w')"
  using assms
proof (induction xs arbitrary: t w)
  case Nil
  then show ?case by simp
next
  case (Cons a xs)
  obtain k n where a: "a = (k, n)" by (cases a)
  from Cons.prems(1) a obtain g where g: "Flower_findByPk w k = Some g" "n \<le> f_stock g"
    by (auto simp: reservable_def split: option.splits)
  from Flower_findByPk_SomeD[OF g(1)] have act: "f_isActive g" by simp
  have free: "\<not> list_ex (\<lambda>i. oi_orderId i = oid \<and> oi_flowerId i = k) (order_items w)"
    using Cons.prems(3) a by (auto simp: list_ex_iff)
  let ?row = "\<lparr>oi_orderId = oid, oi_flowerId = k, oi_quantity = n, oi_price = f_price g\<rparr>"
  let ?w1 = "Flower_update_stock (w\<lparr>order_items := order_items w @ [?row]\<rparr>) (f_id g) (f_stock g - n)"
  have s: "reserve oid k n (Flower_findByPk w k) (t, w) = Continue (t + f_price g * n, ?w1)"
    using g act free by (simp add: reserve_def OrderItem_create_def Let_def)
  have kx: "k \<notin> fst ` set xs" using Cons.prems(2) a by auto
  have 1: "list_all (reservable ?w1) xs"
    unfolding list_all_iff
  proof
    fix x assume x: "x \<in> set xs"
    then have "fst x \<noteq> k" using kx by auto
    then have "Flower_findByPk ?w1 (fst x) = Flower_findByPk w (fst x)"
      using Flower_findByPk_other[of "w\<lparr>order_items := order_items w @ [?row]\<rparr>" k g "fst x"] g(1)
      by simp
    moreover have "reservable w x" using Cons.prems(1) x by (simp add: list_all_iff)
    ultimately show "reservable ?w1 x" by (simp add: reservable_def)
  qed
  have 2: "distinct (map fst xs)" using Cons.prems(2) by simp
  have 3: "\<forall>i\<in>set (order_items ?w1). oi_orderId i = oid \<longrightarrow> oi_flowerId i \<notin> fst ` set xs"
    using Cons.prems(3) kx by (auto simp: Flower_update_stock_def)
  from Cons.IH[OF 1 2 3]
  have "\<exists>t' w'. reserve_loop oid xs (t + f_price g * n, ?w1) = Continue (t', w')" .
  with s a show ?case by simp
qed

lemma reserve_loop_append:
  "reserve_loop oid (xs @ ys) tw =
     (case reserve_loop oid xs tw of
        Continue tw' \<Rightarrow> reserve_loop oid ys tw' | Respond r \<Rightarrow> Respond r | Raise e \<Rightarrow> Raise e)"
  by (induction oid xs tw rule: reserve_loop.induct) (auto split: step.splits)

lemma Flower_findByPk_cong: "flowers w = flowers w' \<Longrightarrow> Flower_findByPk w k = Flower_findByPk w' k"
  by (simp add: Flower_findByPk_def)

lemma reserve_Raise:
  "reserve oid fid q found tw = Raise e \<Longrightarrow> e = SequelizeUniqueConstraintError"
  by (auto simp: reserve_def OrderItem_create_def Let_def split: option.splits if_splits)

lemma reserve_Respond:
  "reserve oid fid q found tw = Respond r \<Longrightarrow> status r = 400"
  by (auto simp: reserve_def OrderItem_create_def Let_def bad_request_def split: option.splits if_splits)

lemma reserve_loop_Raise:
  "reserve_loop oid m tw = Raise e \<Longrightarrow> e = SequelizeUniqueConstraintError"
  by (induction oid m tw rule: reserve_loop.induct) (auto split: step.splits dest: reserve_Raise)

lemma reserve_loop_Respond:
  "reserve_loop oid m tw = Respond r \<Longrightarrow> status r = 400"
  by (induction oid m tw rule: reserve_loop.induct) (auto split: step.splits dest: reserve_Respond)

text \<open>The loop neither reads nor writes the orders.\<close>

lemma reserve_orders:
  "reserve oid fid q found (t, w\<lparr>orders := X\<rparr>) =
     (case reserve oid fid q found (t, w) of
        Continue tw \<Rightarrow> Continue (fst tw, (snd tw)\<lparr>orders := X\<rparr>)
      | Respond r \<Rightarrow> Respond r | Raise e \<Rightarrow> Raise e)"
  by (auto simp: reserve_def OrderItem_create_def Flower_update_stock_def Let_def
           split: option.splits)

lemma reserve_loop_orders:
  "reserve_loop oid m (t, w\<lparr>orders := X\<rparr>) =
     (case reserve_loop oid m (t, w) of
        Continue tw \<Rightarrow> Continue (fst tw, (snd tw)\<lparr>orders := X\<rparr>)
      | Respond r \<Rightarrow> Respond r | Raise e \<Rightarrow> Raise e)"
proof (induction m arbitrary: t w)
  case Nil
  then show ?case by simp
next
  case (Cons a m)
  obtain fid q where a: "a = (fid, q)" by (cases a)
  have f: "Flower_findByPk (w\<lparr>orders := X\<rparr>) fid = Flower_findByPk w fid"
    by (simp add: Flower_findByPk_def)
  show ?case
  proof (cases "reserve oid fid q (Flower_findByPk w fid) (t, w)")
    case (Continue tw)
    then show ?thesis
      using a f Cons.IH[of "fst tw" "snd tw"] by (simp add: reserve_orders)
  next
    case (Respond r)
    then show ?thesis using a f by (simp add: reserve_orders)
  next
    case (Raise e)
    then show ?thesis using a f by (simp add: reserve_orders)
  qed
qed

section \<open>Profiles\<close>

lemma getOrCreateCustomerProfile_Inl:
  "getOrCreateCustomerProfile user w = Inl e \<Longrightarrow>
     e = Error (Some 400) ''Authenticated user is missing an email'' \<and> \<not> truthy_str (u_email user)"
  by (auto simp: getOrCreateCustomerProfile_def Let_def split: if_splits prod.splits)

lemma getOrCreateCustomerProfile_Inr:
  "truthy_str (u_email user) \<Longrightarrow> \<exists>c w. getOrCreateCustomerProfile user d = Inr (c, w)"
  by (auto simp: getOrCreateCustomerProfile_def Let_def split: prod.splits)

lemma getOrCreateCustomerProfile_InrD:
  "getOrCreateCustomerProfile user d = Inr x \<Longrightarrow> truthy_str (u_email user)"
  by (auto simp: getOrCreateCustomerProfile_def split: if_splits)

lemma getOrCreateCustomerProfile_frame:
  "getOrCreateCustomerProfile user d = Inr (c, w) \<Longrightarrow>
     flowers w = flowers d \<and> orders w = orders d \<and> order_items w = order_items d"
  by (auto simp: getOrCreateCustomerProfile_def Customer_findOrCreate_def Customer_save_def Let_def
           split: if_splits option.splits)

lemma filter_replace:
  assumes "distinct (map c_id xs)" "distinct (map c_email xs)" "c0 \<in> set xs"
    "c_id c' = c_id c0" "c_email c' = c_email c0"
  shows "filter (\<lambda>x. c_email x = c_email c0) (map (\<lambda>x. if c_id x = c_id c' then c' else x) xs) = [c']"
  using assms(1-3)
proof (induction xs)
  case Nil
  then show ?case by simp
next
  case (Cons a xs)
  show ?case
  proof (cases "a = c0")
    case True
    have o: "\<forall>y\<in>set xs. c_id y \<noteq> c_id c0 \<and> c_email y \<noteq> c_email c0"
      using Cons.prems True by (force simp: image_iff)
    then have "map (\<lambda>x. if c_id x = c_id c' then c' else x) xs = xs"
      using assms(4) by (simp add: map_id_on)
    moreover have "filter (\<lambda>x. c_email x = c_email c0) xs = []"
      using o by (simp add: filter_False)
    ultimately show ?thesis using True assms(4,5) by simp
  next
    case False
    with Cons.prems have "c0 \<in> set xs" "c_id a \<noteq> c_id c0" "c_email a \<noteq> c_email c0" by force+
    with Cons assms(4) show ?thesis by simp
  qed
qed

text \<open>The profile the helper returns and the profiles it leaves.\<close>

lemma getOrCreateCustomerProfile_profile:
  assumes g: "getOrCreateCustomerProfile user d = Inr (c, w)"
    and e: "u_email user = Some email"
    and de: "distinct (map c_email (customers d))" and di: "distinct (map c_id (customers d))"
  shows "filter (\<lambda>x. c_email x = email) (customers w) = [c] \<and> c_isActive c \<and>
     (case find (\<lambda>x. c_email x = email) (customers d) of
        None \<Rightarrow> customers w = customers d @ [c]
                 \<and> c_name c = str_or (u_name user) (local_part email)
      | Some c0 \<Rightarrow> length (customers w) = length (customers d) \<and> c_id c = c_id c0
                 \<and> c = c0\<lparr>c_isActive := True,
                          c_name := (if c_isActive c0 \<or> c_name c0 \<noteq> [] then c_name c0
                                     else str_or (u_name user) (local_part email))\<rparr>)"
proof (cases "find (\<lambda>x. c_email x = email) (customers d)")
  case None
  from g e None have em: "email \<noteq> []"
    by (auto simp: getOrCreateCustomerProfile_def truthy_str_def split: if_splits)
  from g e None em have c: "c = \<lparr>c_id = next_id (map c_id (customers d)),
        c_name = str_or (u_name user) (local_part email), c_email = email, c_isActive = True\<rparr>"
    and w: "w = d\<lparr>customers := customers d @ [c]\<rparr>"
    by (auto simp: getOrCreateCustomerProfile_def Customer_findOrCreate_def truthy_str_def Let_def)
  have "filter (\<lambda>x. c_email x = email) (customers d) = []"
    using None by (rule find_None_filter)
  then show ?thesis using None c w by simp
next
  case (Some c0)
  from find_Some_mem[OF Some] have m: "c0 \<in> set (customers d)" "c_email c0 = email" by auto
  from g e have em: "email \<noteq> []"
    by (auto simp: getOrCreateCustomerProfile_def truthy_str_def split: if_splits)
  show ?thesis
  proof (cases "c_isActive c0")
    case True
    with g e Some em have "c = c0" "w = d"
      by (auto simp: getOrCreateCustomerProfile_def Customer_findOrCreate_def truthy_str_def Let_def)
    moreover have "filter (\<lambda>x. c_email x = email) (customers d) = [c0]"
      using filter_unique_key[OF de m(1)] m(2) by simp
    ultimately show ?thesis using Some True by simp
  next
    case False
    let ?c = "c0\<lparr>c_isActive := True,
                  c_name := (if c_name c0 \<noteq> [] then c_name c0
                             else str_or (u_name user) (local_part email))\<rparr>"
    from g e Some em False have c: "c = ?c" and w: "w = Customer_save d ?c"
      by (auto simp: getOrCreateCustomerProfile_def Customer_findOrCreate_def truthy_str_def Let_def)
    have "filter (\<lambda>x. c_email x = c_email c0)
            (map (\<lambda>x. if c_id x = c_id ?c then ?c else x) (customers d)) = [?c]"
      by (rule filter_replace[OF di de m(1)]) simp_all
    then have "filter (\<lambda>x. c_email x = email) (customers w) = [c]"
      using c w m(2) by (simp add: Customer_save_def)
    then show ?thesis using Some False c w by (simp add: Customer_save_def)
  qed
qed

section \<open>The handler, exit by exit\<close>

lemma status_shop_catch_400:
  "status (shop_catch SequelizeUniqueConstraintError) = 400"
  "status (shop_catch (Error (Some 400) m)) = 400"
  by (simp_all add: shop_catch_def isSeqValidation_def)

lemma shop_post_orders_status:
  "status (fst (shop_post_orders d user req)) = 201 \<or> status (fst (shop_post_orders d user req)) = 400"
  by (auto simp: shop_post_orders_def Let_def bad_request_def status_shop_catch_400
           split: option.splits sum.splits step.splits prod.splits
           dest!: getOrCreateCustomerProfile_Inl reserve_loop_Raise reserve_loop_Respond)

lemma shop_post_orders_201:
  assumes "shop_post_orders d user req = (resp, d')" "status resp = 201"
  obtains its customer w1 ord w2 merged tot w3 where
    "r_items req = Some its" "its \<noteq> []" "truthy_str (r_contactPhone req)"
    "getOrCreateCustomerProfile user d = Inr (customer, w1)"
    "Order_create w1 (c_id customer) (ExtraJson (extra_of req)) = (ord, w2)"
    "merge_items [] (flat its) = Some merged"
    "reserve_loop (o_id ord) merged (0, w2) = Continue (tot, w3)"
    "d' = Order_update_total w3 (o_id ord) tot"
    "resp = \<lparr>status = 201, body = BOrder (Order_findByPk d' (of_int (o_id ord)))\<rparr>"
proof -
  from assms obtain its where i: "r_items req = Some its" "its \<noteq> []" "truthy_str (r_contactPhone req)"
    by (auto simp: shop_post_orders_def bad_request_def split: option.splits if_splits)
  from assms i obtain customer w1 where c: "getOrCreateCustomerProfile user d = Inr (customer, w1)"
    by (cases "getOrCreateCustomerProfile user d")
       (auto simp: shop_post_orders_def Let_def status_shop_catch_400 dest!: getOrCreateCustomerProfile_Inl)
  obtain ord w2 where o: "Order_create w1 (c_id customer) (ExtraJson (extra_of req)) = (ord, w2)"
    by (cases "Order_create w1 (c_id customer) (ExtraJson (extra_of req))")
  from assms i c o obtain merged where m: "merge_items [] (flat its) = Some merged"
    by (cases "merge_items [] (flat its)")
       (auto simp: shop_post_orders_def Let_def extra_of_def bad_request_def)
  from assms i c o m obtain tot w3 where l: "reserve_loop (o_id ord) merged (0, w2) = Continue (tot, w3)"
    by (cases "reserve_loop (o_id ord) merged (0, w2)")
       (auto simp: shop_post_orders_def Let_def extra_of_def status_shop_catch_400
             dest!: reserve_loop_Raise reserve_loop_Respond)
  from assms i c o m l have "d' = Order_update_total w3 (o_id ord) tot"
      "resp = \<lparr>status = 201, body = BOrder (Order_findByPk d' (of_int (o_id ord)))\<rparr>"
    by (auto simp: shop_post_orders_def Let_def extra_of_def commit_def)
  with i c o m l show ?thesis by (rule that)
qed

lemma shop_post_orders_rollback:
  "status (fst (shop_post_orders d user req)) \<noteq> 201 \<Longrightarrow>
     snd (shop_post_orders d user req) = d"
  by (auto simp: shop_post_orders_def rollback_def Let_def
           split: option.splits sum.splits step.splits prod.splits)

lemma fk_fresh:
  assumes "fk_order_items d" "i \<in> set (order_items d)"
  shows "oi_orderId i \<noteq> next_id (map o_id (orders d))"
proof -
  from assms obtain x where "x \<in> set (orders d)" "o_id x = oi_orderId i"
    by (auto simp: fk_order_items_def list_all_iff list_ex_iff)
  have "o_id x < next_id (map o_id (orders d))"
    by (rule next_id_gt) (use \<open>x \<in> set (orders d)\<close> in simp)
  with \<open>o_id x = oi_orderId i\<close> show ?thesis by simp
qed

text \<open>The order a successful call commits, with its lines.\<close>

lemma shop_post_orders_committed:
  assumes r: "shop_post_orders d user req = (resp, d')" and s: "status resp = 201"
    and fk: "fk_order_items d"
  obtains its customer w1 merged ord lines where
    "r_items req = Some its" "merge_items [] (flat its) = Some merged"
    "getOrCreateCustomerProfile user d = Inr (customer, w1)"
    "body resp = BOrder (Some (ord, lines))"
    "orders d' = orders d @ [ord]" "order_items d' = order_items d @ lines"
    "customers d' = customers w1"
    "lines = filter (\<lambda>i. oi_orderId i = o_id ord) (order_items d')"
    "map (\<lambda>i. (oi_flowerId i, oi_quantity i)) lines = merged"
    "o_total ord = sum_list (map (\<lambda>i. oi_price i * oi_quantity i) lines)"
    "o_notes ord = ExtraJson (extra_of req)" "o_status ord = pending"
    "o_customerId ord = c_id customer"
    "reserve_loop (o_id ord) merged (0, w1\<lparr>orders := orders d @ [ord\<lparr>o_total := 0\<rparr>]\<rparr>)
       = Continue (o_total ord, d'\<lparr>orders := orders d @ [ord\<lparr>o_total := 0\<rparr>]\<rparr>)"
proof -
  from r s obtain its customer w1 ord0 w2 merged tot w3 where
    h: "r_items req = Some its" "its \<noteq> []" "truthy_str (r_contactPhone req)"
    "getOrCreateCustomerProfile user d = Inr (customer, w1)"
    "Order_create w1 (c_id customer) (ExtraJson (extra_of req)) = (ord0, w2)"
    "merge_items [] (flat its) = Some merged"
    "reserve_loop (o_id ord0) merged (0, w2) = Continue (tot, w3)"
    "d' = Order_update_total w3 (o_id ord0) tot"
    "resp = \<lparr>status = 201, body = BOrder (Order_findByPk d' (of_int (o_id ord0)))\<rparr>"
    by (rule shop_post_orders_201)
  let ?oid = "next_id (map o_id (orders d))"
  from getOrCreateCustomerProfile_frame[OF h(4)]
  have fr: "flowers w1 = flowers d" "orders w1 = orders d" "order_items w1 = order_items d" by auto
  from h(5) fr have o0: "ord0 = \<lparr>o_id = ?oid, o_customerId = c_id customer,
        o_notes = ExtraJson (extra_of req), o_status = pending, o_total = 0\<rparr>"
    and w2: "w2 = w1\<lparr>orders := orders d @ [ord0]\<rparr>"
    by (auto simp: Order_create_def Let_def)
  have oid: "o_id ord0 = ?oid" using o0 by simp
  from reserve_loop_Continue[OF h(7)] obtain rows where
    l: "customers w3 = customers w2" "orders w3 = orders w2"
       "order_items w3 = order_items w2 @ rows"
       "map (\<lambda>i. (oi_flowerId i, oi_quantity i)) rows = merged"
       "\<forall>i\<in>set rows. oi_orderId i = o_id ord0"
       "tot = 0 + sum_list (map (\<lambda>i. oi_price i * oi_quantity i) rows)" by auto
  let ?ord = "ord0\<lparr>o_total := tot\<rparr>"
  have old: "\<And>x. x \<in> set (orders d) \<Longrightarrow> o_id x \<noteq> ?oid"
    using next_id_gt[of _ "map o_id (orders d)"] by fastforce
  have "map (\<lambda>x. if o_id x = ?oid then x\<lparr>o_total := tot\<rparr> else x) (orders d) = orders d"
    by (rule map_id_on) (simp add: old)
  then have od: "orders d' = orders d @ [?ord]"
    using h(8) l(2) w2 oid by (simp add: Order_update_total_def)
  have items: "order_items d' = order_items d @ rows"
    using h(8) l(3) w2 fr by (simp add: Order_update_total_def)
  have cust: "customers d' = customers w1"
    using h(8) l(1) w2 by (simp add: Order_update_total_def)
  have olditems: "\<And>i. i \<in> set (order_items d) \<Longrightarrow> oi_orderId i \<noteq> ?oid"
  proof -
    fix i assume "i \<in> set (order_items d)"
    with fk obtain x where "x \<in> set (orders d)" "o_id x = oi_orderId i"
      by (auto simp: fk_order_items_def list_all_iff list_ex_iff)
    with old show "oi_orderId i \<noteq> ?oid" by auto
  qed
  have "filter (\<lambda>i. oi_orderId i = ?oid) (order_items d) = []"
    by (rule filter_False) (simp add: olditems)
  moreover have "filter (\<lambda>i. oi_orderId i = ?oid) rows = rows"
    by (rule filter_True') (use l(5) oid in simp)
  ultimately have fl: "rows = filter (\<lambda>i. oi_orderId i = o_id ?ord) (order_items d')"
    using items oid by simp
  have "find (\<lambda>x. (of_int (o_id x) :: rat) = of_int ?oid) (orders d @ [?ord]) =
        find (\<lambda>x. (of_int (o_id x) :: rat) = of_int ?oid) [?ord]"
    by (rule find_append_fresh) (simp add: old)
  then have "Order_findByPk d' (of_int (o_id ord0)) = Some (?ord, rows)"
    using od fl oid by (simp add: Order_findByPk_def)
  then have b: "body resp = BOrder (Some (?ord, rows))" using h(9) by simp
  have loop: "reserve_loop (o_id ?ord) merged (0, w1\<lparr>orders := orders d @ [?ord\<lparr>o_total := 0\<rparr>]\<rparr>)
       = Continue (o_total ?ord, d'\<lparr>orders := orders d @ [?ord\<lparr>o_total := 0\<rparr>]\<rparr>)"
    using h(7,8) w2 o0 l(2) by (simp add: Order_update_total_def)
  show ?thesis
    by (rule that[OF h(1) h(6) h(4) b od items cust fl l(4) _ _ _ _ loop])
       (use l(6) o0 in simp_all)
qed

lemma shop_post_orders_customers:
  assumes "shop_post_orders d user req = (resp, d')" "status resp = 201"
  shows "\<exists>c w. getOrCreateCustomerProfile user d = Inr (c, w) \<and> customers d' = customers w"
proof -
  from assms obtain its customer w1 ord w2 merged tot w3 where
    h: "r_items req = Some its" "its \<noteq> []" "truthy_str (r_contactPhone req)"
    "getOrCreateCustomerProfile user d = Inr (customer, w1)"
    "Order_create w1 (c_id customer) (ExtraJson (extra_of req)) = (ord, w2)"
    "merge_items [] (flat its) = Some merged"
    "reserve_loop (o_id ord) merged (0, w2) = Continue (tot, w3)"
    "d' = Order_update_total w3 (o_id ord) tot"
    "resp = \<lparr>status = 201, body = BOrder (Order_findByPk d' (of_int (o_id ord)))\<rparr>"
    by (rule shop_post_orders_201)
  from reserve_loop_Continue[OF h(7)] have "customers w3 = customers w2" by simp
  moreover from h(5) have "customers w2 = customers w1" by (auto simp: Order_create_def Let_def)
  ultimately have "customers d' = customers w1" using h(8) by (simp add: Order_update_total_def)
  with h(4) show ?thesis by simp
qed

lemma shop_post_orders_status_fulfilment:
  "status (fst (shop_post_orders d user (req\<lparr>r_fulfilment := v\<rparr>)))
     = status (fst (shop_post_orders d user req))"
proof (cases "\<exists>its. r_items req = Some its \<and> its \<noteq> [] \<and> truthy_str (r_contactPhone req)
                \<and> truthy_str (u_email user) \<and> merge_items [] (flat its) \<noteq> None")
  case False
  then show ?thesis
    by (auto simp: shop_post_orders_def bad_request_def Let_def status_shop_catch_400
             split: option.splits sum.splits prod.splits
             dest!: getOrCreateCustomerProfile_Inl getOrCreateCustomerProfile_InrD)
next
  case True
  then obtain its merged where i: "r_items req = Some its" "its \<noteq> []"
     "truthy_str (r_contactPhone req)" "truthy_str (u_email user)"
     "merge_items [] (flat its) = Some merged" by auto
  from getOrCreateCustomerProfile_Inr[OF i(4)] obtain c w1 where
    c: "getOrCreateCustomerProfile user d = Inr (c, w1)" by blast
  define oid where "oid = next_id (map o_id (orders w1))"
  define mk where "mk = (\<lambda>r. \<lparr>o_id = oid, o_customerId = c_id c,
        o_notes = ExtraJson (extra_of r), o_status = pending, o_total = 0\<rparr>)"
  have oc: "\<And>r. Order_create w1 (c_id c) (ExtraJson (extra_of r))
              = (mk r, w1\<lparr>orders := orders w1 @ [mk r]\<rparr>)"
    by (simp add: Order_create_def Let_def mk_def oid_def)
  have oid: "\<And>r. o_id (mk r) = oid" by (simp add: mk_def)
  let ?L = "reserve_loop oid merged (0, w1)"
  have st: "status (fst (shop_post_orders d user r)) =
         (case ?L of Continue tw \<Rightarrow> 201 | Respond x \<Rightarrow> status x | Raise e \<Rightarrow> status (shop_catch e))"
    if "r_items r = Some its" "r_contactPhone r = r_contactPhone req" for r
    using that i c oc[of r] oid[of r] reserve_loop_orders[where oid=oid and m=merged and t=0 and w=w1 and X="orders w1 @ [mk r]"]
    by (cases ?L) (simp_all add: shop_post_orders_def Let_def split: prod.splits)
  show ?thesis using st[of req] st[of "req\<lparr>r_fulfilment := v\<rparr>"] i by simp
qed


lemma shop_post_orders_short_of_stock:
  assumes "r_items req = Some its" and "merge_items [] (flat its) = Some merged"
    and "(fid, q) \<in> set merged"
    and "Flower_findByPk d fid = Some f" and "f_stock f < q"
  shows "status (fst (shop_post_orders d user req)) \<noteq> 201"
proof
  assume s: "status (fst (shop_post_orders d user req)) = 201"
  have "shop_post_orders d user req =
     (fst (shop_post_orders d user req), snd (shop_post_orders d user req))" by simp
  from this s obtain its' customer w1 ord w2 merged' tot w3 where
    h: "r_items req = Some its'" "its' \<noteq> []" "truthy_str (r_contactPhone req)"
    "getOrCreateCustomerProfile user d = Inr (customer, w1)"
    "Order_create w1 (c_id customer) (ExtraJson (extra_of req)) = (ord, w2)"
    "merge_items [] (flat its') = Some merged'"
    "reserve_loop (o_id ord) merged' (0, w2) = Continue (tot, w3)"
    "snd (shop_post_orders d user req) = Order_update_total w3 (o_id ord) tot"
    "fst (shop_post_orders d user req) =
       \<lparr>status = 201, body = BOrder (Order_findByPk (snd (shop_post_orders d user req)) (of_int (o_id ord)))\<rparr>"
    by (rule shop_post_orders_201)
  from h(1,6) assms(1,2) have m: "merged' = merged" by simp
  have dm: "distinct (map fst merged)" using merge_items_distinct[OF assms(2)] by simp
  from reserve_loop_stock[OF h(7)[unfolded m] dm assms(3)] obtain g where
    g: "Flower_findByPk w2 fid = Some g" "q \<le> f_stock g" by auto
  from getOrCreateCustomerProfile_frame[OF h(4)] h(5)
  have "flowers w2 = flowers d" by (auto simp: Order_create_def Let_def)
  then have "Flower_findByPk w2 fid = Flower_findByPk d fid" by (rule Flower_findByPk_cong)
  with g assms(4,5) show False by simp
qed

lemma insufficient_stock_first:
  assumes "r_items req = Some its" and "its \<noteq> []" and "truthy_str (r_contactPhone req)"
    and "truthy_str (u_email user)"
    and "merge_items [] (flat its) = Some (pre @ (fid, q) # post)"
    and "list_all (reservable d) pre"
    and "Flower_findByPk d fid = Some f" and "f_stock f < q"
    and "fk_order_items d"
  shows "shop_post_orders d user req = (bad_request (Insufficient_stock_for (f_name f)), d)"
proof -
  from getOrCreateCustomerProfile_Inr[OF assms(4)] obtain c w1 where
    c: "getOrCreateCustomerProfile user d = Inr (c, w1)" by blast
  from getOrCreateCustomerProfile_frame[OF c]
  have fr: "flowers w1 = flowers d" "orders w1 = orders d" "order_items w1 = order_items d" by auto
  define oid where "oid = next_id (map o_id (orders d))"
  define ord0 where "ord0 = \<lparr>o_id = oid, o_customerId = c_id c,
        o_notes = ExtraJson (extra_of req), o_status = pending, o_total = 0\<rparr>"
  define w2 where "w2 = w1\<lparr>orders := orders d @ [ord0]\<rparr>"
  have oc: "Order_create w1 (c_id c) (ExtraJson (extra_of req)) = (ord0, w2)"
    using fr by (simp add: Order_create_def Let_def ord0_def w2_def oid_def)
  have oid: "o_id ord0 = oid" by (simp add: ord0_def)
  have fw2: "\<And>k. Flower_findByPk w2 k = Flower_findByPk d k"
    using fr by (simp add: Flower_findByPk_def w2_def)
  have iw2: "order_items w2 = order_items d" using fr by (simp add: w2_def)
  have dm: "distinct (map fst (pre @ (fid, q) # post))"
    using merge_items_distinct[OF assms(5)] by simp
  have 1: "list_all (reservable w2) pre"
    using assms(6) fw2 by (simp add: reservable_def list_all_iff)
  have 2: "distinct (map fst pre)" using dm by simp
  have 3: "\<forall>i\<in>set (order_items w2). oi_orderId i = oid \<longrightarrow> oi_flowerId i \<notin> fst ` set pre"
    using fk_fresh[OF assms(9)] iw2 by (auto simp: oid_def)
  from reserve_loop_ok[OF 1 2 3] obtain t' w' where
    l: "reserve_loop oid pre (0, w2) = Continue (t', w')" by blast
  have "fid \<notin> fst ` set pre" using dm by auto
  from reserve_loop_other[OF l this] have "Flower_findByPk w' fid = Some f"
    using fw2 assms(7) by simp
  moreover have "f_isActive f" using Flower_findByPk_SomeD[OF assms(7)] by simp
  ultimately have
    "reserve oid fid q (Flower_findByPk w' fid) (t', w')
       = Respond (bad_request (Insufficient_stock_for (f_name f)))"
    using assms(8) by (simp add: reserve_def)
  then have "reserve_loop oid (pre @ (fid, q) # post) (0, w2)
       = Respond (bad_request (Insufficient_stock_for (f_name f)))"
    using l by (simp add: reserve_loop_append)
  then show ?thesis
    using assms(1-3,5) c oc oid by (simp add: shop_post_orders_def rollback_def)
qed

section \<open>Atomicity\<close>

text \<open>
  Claim C1. A self-service order that is not created (any response other than 201: a
  rejected entry, an unavailable flower or insufficient stock at any item of the merged
  cart, a profile or constraint error) leaves the database as it was before the call:
  the stock of every flower, the order lines, the orders and the profiles are unchanged,
  whatever the earlier items had already reserved inside the transaction. Every such
  response has status 400.
\<close>

theorem shop_post_orders_atomic:
  assumes "shop_post_orders d user req = (resp, d')" and "status resp \<noteq> 201"
  shows "d' = d \<and> map f_stock (flowers d') = map f_stock (flowers d)
         \<and> order_items d' = order_items d \<and> status resp = 400"
proof -
  from assms have n: "status (fst (shop_post_orders d user req)) \<noteq> 201" by simp
  from shop_post_orders_rollback[OF n] assms(1) have "d' = d" by simp
  moreover from shop_post_orders_status[of d user req] assms have "status resp = 400" by simp
  ultimately show ?thesis by simp
qed

text \<open>
  The first item (2 roses of 10) is reserved, the second (5 tulips of 3) fails: nothing
  of the first survives.
\<close>

theorem shop_post_orders_atomic_witness:
  "shop_post_orders shop0 ann (cart [line 7 2, line 8 5])
     = (bad_request (Insufficient_stock_for ''Tulip''), shop0)
   \<and> status (bad_request (Insufficient_stock_for ''Tulip'')) \<noteq> 201
   \<and> map f_stock (flowers shop0) = [10, 3]
   \<and> order_items shop0 = []"
proof -
  have e: "shop_post_orders shop0 ann (cart [line 7 2, line 8 5])
     = (bad_request (Insufficient_stock_for ''Tulip''), shop0)"
    by (simp add: eval_defs example_defs)
  have h: "status (bad_request (Insufficient_stock_for ''Tulip'')) \<noteq> 201"
    by (simp add: bad_request_def)
  from shop_post_orders_atomic[OF e h] e h show ?thesis
    by (simp add: example_defs)
qed

section \<open>Duplicate entries are merged\<close>

text \<open>
  Claim C4. The entries of a cart are merged by flowerId, their quantities summed, before
  any stock check: the committed order has one line per flower of the cart and never two
  lines for the same flower; the quantity of a line is the sum of the quantities of the
  cart's entries for that flower; and that sum is what was checked against the flower's
  stock and taken from it, once.
\<close>

theorem cart_merged_by_flower:
  assumes "shop_post_orders d user req = (resp, d')" and "status resp = 201"
    and "fk_order_items d" and "r_items req = Some its"
  shows "\<exists>ord lines. body resp = BOrder (Some (ord, lines))
           \<and> lines = filter (\<lambda>i. oi_orderId i = o_id ord) (order_items d')
           \<and> distinct (map oi_flowerId lines)
           \<and> set (map oi_flowerId lines) = {k. \<exists>e\<in>set (flat its). Number (flowerId e) = Some k}
           \<and> (\<forall>i\<in>set lines.
                 oi_quantity i =
                   sum_list (map entry_qty
                     (filter (\<lambda>e. Number (flowerId e) = Some (oi_flowerId i)) (flat its)))
                 \<and> (\<exists>f. Flower_findByPk d (oi_flowerId i) = Some f
                        \<and> oi_quantity i \<le> f_stock f
                        \<and> Flower_findByPk d' (oi_flowerId i) =
                              Some (f\<lparr>f_stock := f_stock f - oi_quantity i\<rparr>)))"
proof -
  from assms(1-3) obtain its' customer w1 merged ord lines where
    h: "r_items req = Some its'" "merge_items [] (flat its') = Some merged"
    "getOrCreateCustomerProfile user d = Inr (customer, w1)"
    "body resp = BOrder (Some (ord, lines))"
    "orders d' = orders d @ [ord]" "order_items d' = order_items d @ lines"
    "customers d' = customers w1"
    "lines = filter (\<lambda>i. oi_orderId i = o_id ord) (order_items d')"
    "map (\<lambda>i. (oi_flowerId i, oi_quantity i)) lines = merged"
    "o_total ord = sum_list (map (\<lambda>i. oi_price i * oi_quantity i) lines)"
    "o_notes ord = ExtraJson (extra_of req)" "o_status ord = pending"
    "o_customerId ord = c_id customer"
    "reserve_loop (o_id ord) merged (0, w1\<lparr>orders := orders d @ [ord\<lparr>o_total := 0\<rparr>]\<rparr>)
       = Continue (o_total ord, d'\<lparr>orders := orders d @ [ord\<lparr>o_total := 0\<rparr>]\<rparr>)"
    by (rule shop_post_orders_committed)
  from h(1) assms(4) have its: "its' = its" by simp
  note m = h(2)[unfolded its]
  have dm: "distinct (map fst merged)" using merge_items_distinct[OF m] by simp
  have "map fst (map (\<lambda>i. (oi_flowerId i, oi_quantity i)) lines) = map fst merged"
    using h(9) by simp
  then have keys: "map oi_flowerId lines = map fst merged"
    by (simp add: comp_def)
  have d1: "distinct (map oi_flowerId lines)" using dm keys by simp
  have d2: "set (map oi_flowerId lines) = {k. \<exists>e\<in>set (flat its). Number (flowerId e) = Some k}"
  proof -
    have "set (map oi_flowerId lines) = fst ` set merged" using keys by simp
    with merge_items_keys[OF m] show ?thesis by simp
  qed
  from getOrCreateCustomerProfile_frame[OF h(3)]
  have fr: "flowers w1 = flowers d" by auto
  have d3: "oi_quantity i =
                   sum_list (map entry_qty
                     (filter (\<lambda>e. Number (flowerId e) = Some (oi_flowerId i)) (flat its)))
                 \<and> (\<exists>f. Flower_findByPk d (oi_flowerId i) = Some f
                        \<and> oi_quantity i \<le> f_stock f
                        \<and> Flower_findByPk d' (oi_flowerId i) =
                              Some (f\<lparr>f_stock := f_stock f - oi_quantity i\<rparr>))"
    if i: "i \<in> set lines" for i
  proof -
    from i h(9) have mem: "(oi_flowerId i, oi_quantity i) \<in> set merged" by force
    have "map_get_or0 merged (oi_flowerId i) = oi_quantity i"
      using map_of_distinct_mem[OF dm mem] .
    with merge_items_sum[OF m, of "oi_flowerId i"]
    have q: "oi_quantity i =
                   sum_list (map entry_qty
                     (filter (\<lambda>e. Number (flowerId e) = Some (oi_flowerId i)) (flat its)))"
      by (simp add: map_get_or0_def)
    from reserve_loop_stock[OF h(14) dm mem] obtain f where
      f: "Flower_findByPk (w1\<lparr>orders := orders d @ [ord\<lparr>o_total := 0\<rparr>]\<rparr>) (oi_flowerId i) = Some f"
         "oi_quantity i \<le> f_stock f"
         "Flower_findByPk (d'\<lparr>orders := orders d @ [ord\<lparr>o_total := 0\<rparr>]\<rparr>) (oi_flowerId i)
            = Some (f\<lparr>f_stock := f_stock f - oi_quantity i\<rparr>)" by auto
    have "Flower_findByPk d (oi_flowerId i) = Some f"
      using f(1) fr by (simp add: Flower_findByPk_def)
    moreover have "Flower_findByPk d' (oi_flowerId i) = Some (f\<lparr>f_stock := f_stock f - oi_quantity i\<rparr>)"
      using f(3) by (simp add: Flower_findByPk_def)
    ultimately show ?thesis using q f(2) by simp
  qed
  from d3 have d4: "\<forall>i\<in>set lines.
                 oi_quantity i =
                   sum_list (map entry_qty
                     (filter (\<lambda>e. Number (flowerId e) = Some (oi_flowerId i)) (flat its)))
                 \<and> (\<exists>f. Flower_findByPk d (oi_flowerId i) = Some f
                        \<and> oi_quantity i \<le> f_stock f
                        \<and> Flower_findByPk d' (oi_flowerId i) =
                              Some (f\<lparr>f_stock := f_stock f - oi_quantity i\<rparr>))" ..
  from h(4) h(8) d1 d2 d4 show ?thesis
    by (intro exI[of _ ord] exI[of _ lines] conjI)
qed

text \<open>The cart with flower 7 listed twice, 2 and 3: one line of 5, and 5 off the stock.\<close>

theorem cart_merged_by_flower_witness:
  "status (fst (shop_post_orders shop0 ann (cart [line 7 2, line 7 3]))) = 201
   \<and> fk_order_items shop0
   \<and> r_items (cart [line 7 2, line 7 3]) = Some [line 7 2, line 7 3]
   \<and> order_items (snd (shop_post_orders shop0 ann (cart [line 7 2, line 7 3])))
        = [\<lparr>oi_orderId = 1, oi_flowerId = 7, oi_quantity = 5, oi_price = 99 / 10\<rparr>]
   \<and> map f_stock (flowers (snd (shop_post_orders shop0 ann (cart [line 7 2, line 7 3]))))
        = [5, 3]
   \<and> (\<exists>ord lines.
         body (fst (shop_post_orders shop0 ann (cart [line 7 2, line 7 3])))
           = BOrder (Some (ord, lines))
         \<and> distinct (map oi_flowerId lines))"
proof -
  have h1: "status (fst (shop_post_orders shop0 ann (cart [line 7 2, line 7 3]))) = 201"
    by (simp add: eval_defs example_defs)
  have h2: "fk_order_items shop0"
    by (simp add: fk_order_items_def example_defs)
  have h3: "r_items (cart [line 7 2, line 7 3]) = Some [line 7 2, line 7 3]"
    by (simp add: cart_def)
  have i: "order_items (snd (shop_post_orders shop0 ann (cart [line 7 2, line 7 3])))
        = [\<lparr>oi_orderId = 1, oi_flowerId = 7, oi_quantity = 5, oi_price = 99 / 10\<rparr>]"
    by (simp add: eval_defs example_defs)
  have s: "map f_stock (flowers (snd (shop_post_orders shop0 ann (cart [line 7 2, line 7 3]))))
        = [5, 3]"
    by (simp add: eval_defs example_defs)
  from cart_merged_by_flower[OF prod.collapse[symmetric] h1 h2 h3]
  have "\<exists>ord lines.
         body (fst (shop_post_orders shop0 ann (cart [line 7 2, line 7 3])))
           = BOrder (Some (ord, lines))
         \<and> distinct (map oi_flowerId lines)"
    by blast
  with h1 h2 h3 i s show ?thesis by (intro conjI)
qed

section \<open>The staff route against the self-service route\<close>

text \<open>
  Claim C5. The staff route is to run the reservation algorithm of the self-service
  route: the same validation of entries, the same merging of duplicate flowerIds, the
  same checks and the same resulting order. It neither validates nor merges. For the
  cart that lists flower 7 twice (2 and 3) the self-service route commits one line of 5,
  while the staff route hits the unique key of \<^verbatim>\<open>order_items\<close> on the second entry and
  answers 500. For a quantity of -5 the self-service route answers 400, while the staff
  route commits the order, with a negative total and 5 more roses in stock than before.
\<close>

theorem staff_route_differs:
  "fst (orders_post shop2 (staff_cart [(7, 2), (7, 3)]))
      = \<lparr>status = 500, body = BMsgError ''Server error'' ''Validation error''\<rparr>
   \<and> status (fst (shop_post_orders shop2 ann (cart [line 7 2, line 7 3]))) = 201
   \<and> map oi_quantity (order_items (snd (shop_post_orders shop2 ann (cart [line 7 2, line 7 3]))))
        = [2, 5]
   \<and> status (fst (orders_post shop2 (staff_cart [(7, - 5)]))) = 201
   \<and> map f_stock (flowers (snd (orders_post shop2 (staff_cart [(7, - 5)])))) = [15, 3]
   \<and> map o_total (orders (snd (orders_post shop2 (staff_cart [(7, - 5)])))) = [5, - (99 / 2)]
   \<and> fst (shop_post_orders shop2 ann (cart [line 7 (- 5)]))
        = bad_request (Lit ''Each item needs flowerId and quantity >= 1'')"
  by (simp add: eval_defs staff_defs example_defs)

section \<open>Validation\<close>

text \<open>
  Claim C6, as the code has it. A request is turned down with status 400, the database
  unchanged, when \<^verbatim>\<open>items\<close> is not an array or is empty, when \<^verbatim>\<open>contactPhone\<close> is absent or
  empty, or when an entry (after one level of flattening) has a flowerId that is absent,
  null, false or 0, or a quantity that is absent, null, false or a number below 1 (zero,
  negative, a fraction below 1). The quantity is not required to be an integer.
\<close>

theorem shop_post_orders_validation:
  assumes "invalid_request req"
  shows "status (fst (shop_post_orders d user req)) = 400
         \<and> snd (shop_post_orders d user req) = d"
proof -
  have n: "status (fst (shop_post_orders d user req)) \<noteq> 201"
  proof
    assume s: "status (fst (shop_post_orders d user req)) = 201"
    have "shop_post_orders d user req = (fst (shop_post_orders d user req), snd (shop_post_orders d user req))"
      by simp
    from this s obtain its customer w1 ord w2 merged tot w3 where
      h: "r_items req = Some its" "its \<noteq> []" "truthy_str (r_contactPhone req)"
      "getOrCreateCustomerProfile user d = Inr (customer, w1)"
      "Order_create w1 (c_id customer) (ExtraJson (extra_of req)) = (ord, w2)"
      "merge_items [] (flat its) = Some merged"
      "reserve_loop (o_id ord) merged (0, w2) = Continue (tot, w3)"
      "snd (shop_post_orders d user req) = Order_update_total w3 (o_id ord) tot"
      "fst (shop_post_orders d user req) =
         \<lparr>status = 201, body = BOrder (Order_findByPk (snd (shop_post_orders d user req)) (of_int (o_id ord)))\<rparr>"
      by (rule shop_post_orders_201)
    from h(6) have "\<not> list_ex rejected (flat its)"
      using merge_items_None[of "[]" "flat its"] by simp
    then have "\<not> list_ex invalid_entry (flat its)"
      by (simp add: list_ex_iff rejected_iff_invalid_entry)
    with assms h(1-3) show False by (simp add: invalid_request_def)
  qed
  with shop_post_orders_status[of d user req] shop_post_orders_rollback[OF n]
  show ?thesis by simp
qed

theorem shop_post_orders_validation_witness:
  "invalid_request (cart [line 7 0])
   \<and> invalid_request (cart [line 7 (- 1)])
   \<and> invalid_request (cart [Obj \<lparr>flowerId = JUndefined, quantity = JNum 1\<rparr>])
   \<and> invalid_request (cart [])
   \<and> invalid_request ((cart [line 7 1])\<lparr>r_contactPhone := None\<rparr>)
   \<and> status (fst (shop_post_orders shop0 ann (cart [line 7 0]))) = 400
   \<and> snd (shop_post_orders shop0 ann (cart [line 7 0])) = shop0"
proof -
  have h: "invalid_request (cart [line 7 0])"
    by (simp add: invalid_request_def invalid_entry_def truthy_str_def flat_def cart_def line_def)
  have "invalid_request (cart [line 7 (- 1)])"
    "invalid_request (cart [Obj \<lparr>flowerId = JUndefined, quantity = JNum 1\<rparr>])"
    "invalid_request (cart [])"
    "invalid_request ((cart [line 7 1])\<lparr>r_contactPhone := None\<rparr>)"
    by (simp_all add: invalid_request_def invalid_entry_def truthy_str_def flat_def cart_def
          line_def)
  with h shop_post_orders_validation[OF h, of shop0 ann] show ?thesis by simp
qed

text \<open>
  Against the claim as stated: a quantity of one and a half, which is not an integer, is
  accepted, and the order is committed with that quantity.
\<close>

theorem fractional_quantity_accepted:
  "(3 / 2 :: rat) \<notin> \<int>
   \<and> status (fst (shop_post_orders shop0 ann (cart [line 7 (3 / 2)]))) = 201
   \<and> order_items (snd (shop_post_orders shop0 ann (cart [line 7 (3 / 2)])))
        = [\<lparr>oi_orderId = 1, oi_flowerId = 7, oi_quantity = 3 / 2, oi_price = 99 / 10\<rparr>]"
  using three_halves_not_int by (simp add: eval_defs example_defs)

section \<open>Profile resolution\<close>

text \<open>
  Claim C7. After a self-service order is placed (status 201), in a table whose emails
  and ids are unique, exactly one profile row carries the principal's email, and it is
  active. If a row with that email existed, no row was added: the row is the old one,
  set active when it was soft-deleted (its name kept unless empty). If none existed, one
  row was appended, named after the principal, or after the local part of the email when
  the principal has no name.
\<close>

theorem profile_found_created_or_reactivated:
  assumes "shop_post_orders d user req = (resp, d')" and "status resp = 201"
    and "u_email user = Some email"
    and "distinct (map c_email (customers d))" and "distinct (map c_id (customers d))"
  shows "\<exists>c. filter (\<lambda>x. c_email x = email) (customers d') = [c] \<and> c_isActive c \<and>
     (case find (\<lambda>x. c_email x = email) (customers d) of
        None \<Rightarrow> customers d' = customers d @ [c]
                 \<and> c_name c = str_or (u_name user) (local_part email)
      | Some c0 \<Rightarrow> length (customers d') = length (customers d) \<and> c_id c = c_id c0
                 \<and> c = c0\<lparr>c_isActive := True,
                          c_name := (if c_isActive c0 \<or> c_name c0 \<noteq> [] then c_name c0
                                     else str_or (u_name user) (local_part email))\<rparr>)"
proof -
  from shop_post_orders_customers[OF assms(1,2)] obtain c w where
    g: "getOrCreateCustomerProfile user d = Inr (c, w)" and cw: "customers d' = customers w" by blast
  from getOrCreateCustomerProfile_profile[OF g assms(3-5)]
  show ?thesis unfolding cw by (rule exI[of _ c])
qed

text \<open>Ann's soft-deleted profile is the one row afterwards, active again.\<close>

theorem profile_found_created_or_reactivated_witness:
  "status (fst (shop_post_orders shop3 ann (cart [line 7 2]))) = 201
   \<and> u_email ann = Some ''ann@example.com''
   \<and> distinct (map c_email (customers shop3)) \<and> distinct (map c_id (customers shop3))
   \<and> customers shop3 = [ann_profile False]
   \<and> customers (snd (shop_post_orders shop3 ann (cart [line 7 2]))) = [ann_profile True]
   \<and> map c_name (customers (snd (shop_post_orders shop0 ann (cart [line 7 2])))) = [''ann'']
   \<and> (\<exists>c. filter (\<lambda>x. c_email x = ''ann@example.com'')
              (customers (snd (shop_post_orders shop3 ann (cart [line 7 2])))) = [c]
          \<and> c_isActive c)"
proof -
  have h1: "status (fst (shop_post_orders shop3 ann (cart [line 7 2]))) = 201"
    by (simp add: eval_defs example_defs)
  have h2: "u_email ann = Some ''ann@example.com''" by (simp add: ann_def)
  have h3: "distinct (map c_email (customers shop3))" "distinct (map c_id (customers shop3))"
    by (simp_all add: example_defs)
  have a: "customers shop3 = [ann_profile False]" by (simp add: shop3_def)
  have b: "customers (snd (shop_post_orders shop3 ann (cart [line 7 2]))) = [ann_profile True]"
    by (simp add: eval_defs example_defs)
  have c: "map c_name (customers (snd (shop_post_orders shop0 ann (cart [line 7 2])))) = [''ann'']"
    by (simp add: eval_defs example_defs)
  from profile_found_created_or_reactivated[OF prod.collapse[symmetric] h1 h2 h3]
  have "\<exists>c. filter (\<lambda>x. c_email x = ''ann@example.com'')
              (customers (snd (shop_post_orders shop3 ann (cart [line 7 2])))) = [c]
          \<and> c_isActive c"
    by blast
  with h1 h2 h3 a b c show ?thesis by (intro conjI)
qed

section \<open>Insufficient stock\<close>

text \<open>
  Claim C8, as the code has it. Whenever an item of the merged cart asks for more than
  the stock of its flower, the call fails: status 400, the database unchanged. When the
  items before it can all be reserved, the payload is the one field \<^verbatim>\<open>msg\<close>, the text
  \<^verbatim>\<open>Insufficient stock for\<close> followed by the flower's name. The payload carries the name
  only: not the flowerId, nor the stock, nor the quantity asked for.
\<close>

theorem insufficient_stock_response:
  assumes "r_items req = Some its"
    and "merge_items [] (flat its) = Some (pre @ (fid, q) # post)"
    and "Flower_findByPk d fid = Some f" and "f_stock f < q"
  shows "status (fst (shop_post_orders d user req)) = 400
         \<and> snd (shop_post_orders d user req) = d
         \<and> (its \<noteq> [] \<and> truthy_str (r_contactPhone req) \<and> truthy_str (u_email user)
              \<and> list_all (reservable d) pre \<and> fk_order_items d
             \<longrightarrow> shop_post_orders d user req
                   = (bad_request (Insufficient_stock_for (f_name f)), d))"
proof -
  have "(fid, q) \<in> set (pre @ (fid, q) # post)" by simp
  from shop_post_orders_short_of_stock[OF assms(1,2) this assms(3,4)]
  have n: "status (fst (shop_post_orders d user req)) \<noteq> 201" .
  from shop_post_orders_status[of d user req] n
  have "status (fst (shop_post_orders d user req)) = 400" by simp
  moreover from shop_post_orders_rollback[OF n]
  have "snd (shop_post_orders d user req) = d" .
  moreover have "shop_post_orders d user req
                   = (bad_request (Insufficient_stock_for (f_name f)), d)"
    if "its \<noteq> []" "truthy_str (r_contactPhone req)" "truthy_str (u_email user)"
       "list_all (reservable d) pre" "fk_order_items d"
    using insufficient_stock_first[OF assms(1) that(1-3) assms(2) that(4) assms(3,4) that(5)] .
  ultimately show ?thesis by simp
qed

theorem insufficient_stock_response_witness:
  "r_items (cart [line 7 2, line 8 5]) = Some [line 7 2, line 8 5]
   \<and> merge_items [] (flat [line 7 2, line 8 5]) = Some ([(7, 2)] @ (8, 5) # [])
   \<and> Flower_findByPk shop0 8 = Some tulip \<and> f_stock tulip < 5
   \<and> truthy_str (r_contactPhone (cart [line 7 2, line 8 5])) \<and> truthy_str (u_email ann)
   \<and> list_all (reservable shop0) [(7, 2)] \<and> fk_order_items shop0
   \<and> status (fst (shop_post_orders shop0 ann (cart [line 7 2, line 8 5]))) = 400
   \<and> shop_post_orders shop0 ann (cart [line 7 2, line 8 5])
        = (bad_request (Insufficient_stock_for (f_name tulip)), shop0)"
proof -
  have h1: "r_items (cart [line 7 2, line 8 5]) = Some [line 7 2, line 8 5]"
    and h2: "[line 7 2, line 8 5] \<noteq> []"
    and h3: "truthy_str (r_contactPhone (cart [line 7 2, line 8 5]))"
    and h4: "truthy_str (u_email ann)"
    by (simp_all add: cart_def ann_def truthy_str_def)
  have h5: "merge_items [] (flat [line 7 2, line 8 5]) = Some ([(7, 2)] @ (8, 5) # [])"
    by (simp add: flat_def line_def or0_def map_get_or0_def)
  have h6: "list_all (reservable shop0) [(7, 2)]"
    by (simp add: reservable_def Flower_findByPk_def example_defs)
  have h7: "Flower_findByPk shop0 8 = Some tulip"
    by (simp add: Flower_findByPk_def example_defs)
  have h8: "f_stock tulip < 5" by (simp add: tulip_def)
  have h9: "fk_order_items shop0" by (simp add: fk_order_items_def example_defs)
  from insufficient_stock_response[OF h1 h5 h7 h8, of ann] h2 h3 h4 h6 h9
  have "status (fst (shop_post_orders shop0 ann (cart [line 7 2, line 8 5]))) = 400"
    "shop_post_orders shop0 ann (cart [line 7 2, line 8 5])
        = (bad_request (Insufficient_stock_for (f_name tulip)), shop0)"
    by (simp_all add: bad_request_def)
  with h1 h3 h4 h5 h6 h7 h8 h9 show ?thesis by (intro conjI)
qed

text \<open>
  Against the claim as stated: 20 of flower 7 (stock 10) and 5 of flower 9 (stock 3), two
  flowers of the same name, get the same payload, so the payload tells neither the
  flowerId nor the available stock nor the requested quantity.
\<close>

theorem insufficient_stock_payload_is_name_only:
  "fst (shop_post_orders shop0 ann (cart [line 7 20]))
     = \<lparr>status = 400, body = BMsg (Insufficient_stock_for ''Rose'')\<rparr>
   \<and> fst (shop_post_orders shop1 ann (cart [line 9 5]))
     = \<lparr>status = 400, body = BMsg (Insufficient_stock_for ''Rose'')\<rparr>"
  by (simp add: eval_defs example_defs)

section \<open>Fulfilment\<close>

text \<open>
  Claim C9, as the code has it. The fulfilment recorded with the order is
  \<^verbatim>\<open>delivery\<close> when the field is exactly that string and \<^verbatim>\<open>pickup\<close> otherwise, also
  when the field is omitted; no value of the field is rejected, since the status of the
  response does not depend on it.
\<close>

theorem fulfilment_coerced:
  "status (fst (shop_post_orders d user (req\<lparr>r_fulfilment := v\<rparr>)))
     = status (fst (shop_post_orders d user req))
   \<and> fulfil None = ''pickup''
   \<and> fulfil v = (if v = Some ''delivery'' then ''delivery'' else ''pickup'')
   \<and> (fk_order_items d \<and> status (fst (shop_post_orders d user req)) = 201 \<longrightarrow>
        (\<exists>ord lines. body (fst (shop_post_orders d user req)) = BOrder (Some (ord, lines))
            \<and> ord \<in> set (orders (snd (shop_post_orders d user req)))
            \<and> o_notes ord = ExtraJson (extra_of req)
            \<and> x_fulfilment (extra_of req) = fulfil (r_fulfilment req)))"
proof -
  have "\<exists>ord lines. body (fst (shop_post_orders d user req)) = BOrder (Some (ord, lines))
            \<and> ord \<in> set (orders (snd (shop_post_orders d user req)))
            \<and> o_notes ord = ExtraJson (extra_of req)
            \<and> x_fulfilment (extra_of req) = fulfil (r_fulfilment req)"
    if fk: "fk_order_items d" and s: "status (fst (shop_post_orders d user req)) = 201"
  proof -
    have p: "shop_post_orders d user req =
       (fst (shop_post_orders d user req), snd (shop_post_orders d user req))" by simp
    from p s fk obtain its customer w1 merged ord lines where
      h: "r_items req = Some its" "merge_items [] (flat its) = Some merged"
      "getOrCreateCustomerProfile user d = Inr (customer, w1)"
      "body (fst (shop_post_orders d user req)) = BOrder (Some (ord, lines))"
      "orders (snd (shop_post_orders d user req)) = orders d @ [ord]"
      "order_items (snd (shop_post_orders d user req)) = order_items d @ lines"
      "customers (snd (shop_post_orders d user req)) = customers w1"
      "lines = filter (\<lambda>i. oi_orderId i = o_id ord) (order_items (snd (shop_post_orders d user req)))"
      "map (\<lambda>i. (oi_flowerId i, oi_quantity i)) lines = merged"
      "o_total ord = sum_list (map (\<lambda>i. oi_price i * oi_quantity i) lines)"
      "o_notes ord = ExtraJson (extra_of req)" "o_status ord = pending"
      "o_customerId ord = c_id customer"
      "reserve_loop (o_id ord) merged (0, w1\<lparr>orders := orders d @ [ord\<lparr>o_total := 0\<rparr>]\<rparr>)
         = Continue (o_total ord, (snd (shop_post_orders d user req))\<lparr>orders := orders d @ [ord\<lparr>o_total := 0\<rparr>]\<rparr>)"
      by (rule shop_post_orders_committed)
    have "ord \<in> set (orders (snd (shop_post_orders d user req)))" using h(5) by simp
    moreover have "x_fulfilment (extra_of req) = fulfil (r_fulfilment req)"
      by (simp add: extra_of_def)
    ultimately show ?thesis using h(4) h(11) by (intro exI[of _ ord] exI[of _ lines] conjI)
  qed
  then show ?thesis
    using shop_post_orders_status_fulfilment[where d=d and user=user and req=req and v=v]
    by (simp add: fulfil_def)
qed

theorem fulfilment_coerced_witness:
  "fk_order_items shop0
   \<and> status (fst (shop_post_orders shop0 ann (cart [line 7 2]))) = 201
   \<and> status (fst (shop_post_orders shop0 ann ((cart [line 7 2])\<lparr>r_fulfilment := Some ''delivery''\<rparr>)))
       = status (fst (shop_post_orders shop0 ann (cart [line 7 2])))
   \<and> (\<exists>ord lines.
         body (fst (shop_post_orders shop0 ann (cart [line 7 2]))) = BOrder (Some (ord, lines))
         \<and> o_notes ord = ExtraJson (extra_of (cart [line 7 2]))
         \<and> x_fulfilment (extra_of (cart [line 7 2])) = ''pickup'')"
proof -
  have h1: "fk_order_items shop0" by (simp add: fk_order_items_def example_defs)
  have h2: "status (fst (shop_post_orders shop0 ann (cart [line 7 2]))) = 201"
    by (simp add: eval_defs example_defs)
  have p: "fulfil (r_fulfilment (cart [line 7 2])) = ''pickup''"
    by (simp add: fulfil_def cart_def)
  from fulfilment_coerced[where d=shop0 and user=ann and req="cart [line 7 2]"
         and v="Some ''delivery''"] h1 h2 p
  show ?thesis by auto
qed

text \<open>
  Against the claim as stated: a fulfilment outside the allowed set is not rejected; the
  order is created.
\<close>

theorem unknown_fulfilment_accepted:
  "''drone'' \<notin> {''pickup'', ''delivery''}
   \<and> status (fst (shop_post_orders shop0 ann ((cart [line 7 2])\<lparr>r_fulfilment := Some ''drone''\<rparr>)))
        = 201"
  by (simp add: eval_defs example_defs)

section \<open>Reading one's own order\<close>

text \<open>
  Claim C10. \<^verbatim>\<open>GET /shop/orders/:id\<close> for an existing order that does not belong to the
  profile of the principal's email (another profile's order, or no profile at all) never
  answers 200 and never returns the order; when the principal has an email the answer is
  404 \<^verbatim>\<open>Order not found\<close>. The answer is 200 only for an order whose customerId is the id
  of the principal's profile, and then the body is that order.
\<close>

theorem shop_get_order_owner_only:
  "(Order_findByPk d k = Some full \<and>
      (\<forall>c. Customer_findOne_email d (u_email user) = Inr (Some c)
            \<longrightarrow> o_customerId (fst full) \<noteq> c_id c)
      \<longrightarrow> status (shop_get_order d user k) \<noteq> 200
          \<and> body (shop_get_order d user k) \<noteq> BOrder (Some full)
          \<and> (u_email user \<noteq> None
               \<longrightarrow> shop_get_order d user k = not_found (Lit ''Order not found'')))
   \<and> (status (shop_get_order d user k) = 200
      \<longrightarrow> (\<exists>c full. Customer_findOne_email d (u_email user) = Inr (Some c)
                 \<and> Order_findByPk d k = Some full \<and> o_customerId (fst full) = c_id c
                 \<and> shop_get_order d user k = \<lparr>status = 200, body = BOrder (Some full)\<rparr>))"
  by (auto simp: shop_get_order_def not_found_def Customer_findOne_email_def
           split: sum.splits option.splits if_splits)

text \<open>Ann asks for Bob's order.\<close>

theorem shop_get_order_owner_only_witness:
  "Order_findByPk shop2 1
     = Some (bobs_order, [\<lparr>oi_orderId = 1, oi_flowerId = 8, oi_quantity = 2, oi_price = 5 / 2\<rparr>])
   \<and> Customer_findOne_email shop2 (u_email ann) = Inr (Some (ann_profile True))
   \<and> o_customerId bobs_order \<noteq> c_id (ann_profile True)
   \<and> shop_get_order shop2 ann 1 = not_found (Lit ''Order not found'')
   \<and> status (shop_get_order shop2 (ann\<lparr>u_email := Some ''bob@example.com''\<rparr>) 1) = 200"
proof -
  have a: "Order_findByPk shop2 1
     = Some (bobs_order, [\<lparr>oi_orderId = 1, oi_flowerId = 8, oi_quantity = 2, oi_price = 5 / 2\<rparr>])"
    by (simp add: Order_findByPk_def example_defs)
  have b: "Customer_findOne_email shop2 (u_email ann) = Inr (Some (ann_profile True))"
    by (simp add: Customer_findOne_email_def example_defs)
  have c: "o_customerId bobs_order \<noteq> c_id (ann_profile True)"
    by (simp add: example_defs)
  have e: "u_email ann \<noteq> None" by (simp add: ann_def)
  have f: "status (shop_get_order shop2 (ann\<lparr>u_email := Some ''bob@example.com''\<rparr>) 1) = 200"
    by (simp add: shop_get_order_def Customer_findOne_email_def Order_findByPk_def example_defs)
  from shop_get_order_owner_only[of shop2 1
         "(bobs_order, [\<lparr>oi_orderId = 1, oi_flowerId = 8, oi_quantity = 2, oi_price = 5 / 2\<rparr>])" ann]
       a b c e
  have "shop_get_order shop2 ann 1 = not_found (Lit ''Order not found'')" by simp
  with a b c f show ?thesis by (intro conjI)
qed

end
